theory Spec2Isabelle
  imports Complex_Main
begin

section \<open>JavaScript numbers\<close>

text \<open>
  The numbers of \<^verbatim>\<open>video.js\<close> are JavaScript numbers. They are modelled as the real
  numbers extended by \<open>Infinity\<close>, \<open>-Infinity\<close> and \<open>NaN\<close>: the source relies on all
  three (\<^verbatim>\<open>maxWidth = Infinity\<close>, \<^verbatim>\<open>w || Infinity\<close>, divisions by a zero axis).
  A finite number is a real; the result of an addition, a multiplication or a division
  is rounded to the nearest double, ties to even, as IEEE 754 does (\<open>fl\<close> below), and
  becomes an infinity when it is out of range. The two zeros of IEEE are one value, taken
  as positive where a sign is needed.
\<close>

datatype jsnum = Num real | PInf | NInf | NaN

definition signed_inf :: "bool \<Rightarrow> jsnum" where
  "signed_inf neg = (if neg then NInf else PInf)"

text \<open>
  Rounding to a double: the exponent of \<open>x\<close> (not below that of the subnormal
  numbers), the unit in the last place of the 53-bit significand at that exponent, and
  the nearest multiple of it, ties to the even one; a result of magnitude \<open>2^1024\<close> or
  more overflows.
\<close>

definition round_half_even :: "real \<Rightarrow> int" where
  "round_half_even y =
     (let f = \<lfloor>y\<rfloor>
      in if y - of_int f < 1 / 2 then f
         else if 1 / 2 < y - of_int f then f + 1
         else if even f then f else f + 1)"

definition dbl_exponent :: "real \<Rightarrow> int" where
  "dbl_exponent x = max (- 1022) \<lfloor>log 2 \<bar>x\<bar>\<rfloor>"

definition fl :: "real \<Rightarrow> jsnum" where
  "fl x =
     (if x = 0 then Num 0
      else
        let u = 2 powi (dbl_exponent x - 52);
            r = u * of_int (round_half_even (x / u))
        in if 2 powi 1024 \<le> \<bar>r\<bar> then signed_inf (x < 0) else Num r)"

text \<open>A value that may be \<^verbatim>\<open>undefined\<close> (an unset variable or a missing property).\<close>

datatype jsval = Undefined | Val jsnum

fun js_neg :: "jsnum \<Rightarrow> jsnum" where
  "js_neg (Num a) = Num (- a)"
| "js_neg PInf = NInf"
| "js_neg NInf = PInf"
| "js_neg NaN = NaN"

fun js_add :: "jsnum \<Rightarrow> jsnum \<Rightarrow> jsnum" where
  "js_add NaN _ = NaN"
| "js_add _ NaN = NaN"
| "js_add (Num a) (Num b) = fl (a + b)"
| "js_add PInf NInf = NaN"
| "js_add NInf PInf = NaN"
| "js_add PInf _ = PInf"
| "js_add NInf _ = NInf"
| "js_add (Num a) PInf = PInf"
| "js_add (Num a) NInf = NInf"

definition js_sub :: "jsnum \<Rightarrow> jsnum \<Rightarrow> jsnum" where
  "js_sub a b = js_add a (js_neg b)"

text \<open>The sign of a number that is neither zero nor \<open>NaN\<close>: \<open>True\<close> for negative.\<close>

fun js_negative :: "jsnum \<Rightarrow> bool" where
  "js_negative (Num a) = (a < 0)"
| "js_negative PInf = False"
| "js_negative NInf = True"
| "js_negative NaN = False"

fun js_mul :: "jsnum \<Rightarrow> jsnum \<Rightarrow> jsnum" where
  "js_mul NaN _ = NaN"
| "js_mul _ NaN = NaN"
| "js_mul (Num a) (Num b) = fl (a * b)"
| "js_mul (Num a) b = (if a = 0 then NaN else signed_inf (js_negative (Num a) \<noteq> js_negative b))"
| "js_mul a (Num b) = (if b = 0 then NaN else signed_inf (js_negative a \<noteq> js_negative (Num b)))"
| "js_mul a b = signed_inf (js_negative a \<noteq> js_negative b)"

fun js_div :: "jsnum \<Rightarrow> jsnum \<Rightarrow> jsnum" where
  "js_div NaN _ = NaN"
| "js_div _ NaN = NaN"
| "js_div (Num a) (Num b) =
     (if b \<noteq> 0 then fl (a / b) else if a = 0 then NaN else signed_inf (a < 0))"
| "js_div (Num a) _ = Num 0"
| "js_div a (Num b) = signed_inf (js_negative a \<noteq> (b < 0))"
| "js_div _ _ = NaN"

text \<open>\<^verbatim>\<open>a < b\<close> and \<^verbatim>\<open>a > b\<close>: false as soon as one side is \<open>NaN\<close>.\<close>

fun js_lt :: "jsnum \<Rightarrow> jsnum \<Rightarrow> bool" where
  "js_lt NaN _ = False"
| "js_lt _ NaN = False"
| "js_lt (Num a) (Num b) = (a < b)"
| "js_lt NInf NInf = False"
| "js_lt NInf _ = True"
| "js_lt _ NInf = False"
| "js_lt PInf _ = False"
| "js_lt _ PInf = True"

definition js_gt :: "jsnum \<Rightarrow> jsnum \<Rightarrow> bool" where
  "js_gt a b = js_lt b a"

text \<open>\<^verbatim>\<open>Math.min(a, b)\<close>: \<open>NaN\<close> if either argument is.\<close>

fun js_min :: "jsnum \<Rightarrow> jsnum \<Rightarrow> jsnum" where
  "js_min NaN _ = NaN"
| "js_min _ NaN = NaN"
| "js_min a b = (if js_lt b a then b else a)"

fun js_floor :: "jsnum \<Rightarrow> jsnum" where
  "js_floor (Num a) = Num (of_int \<lfloor>a\<rfloor>)"
| "js_floor a = a"

text \<open>Truthiness of a number: \<open>0\<close> and \<open>NaN\<close> are falsy; \<^verbatim>\<open>undefined\<close> is falsy.\<close>

fun truthy :: "jsnum \<Rightarrow> bool" where
  "truthy (Num a) = (a \<noteq> 0)"
| "truthy NaN = False"
| "truthy _ = True"

text \<open>\<^verbatim>\<open>a || b\<close> on numbers, and with a possibly undefined left operand.\<close>

definition js_or :: "jsnum \<Rightarrow> jsnum \<Rightarrow> jsnum" where
  "js_or a b = (if truthy a then a else b)"

fun js_or_val :: "jsval \<Rightarrow> jsnum \<Rightarrow> jsnum" where
  "js_or_val Undefined b = b"
| "js_or_val (Val a) b = js_or a b"

text \<open>
  \<^verbatim>\<open>~~x\<close> is \<open>ToInt32\<close>: \<open>NaN\<close> and the infinities give \<open>0\<close>; a finite number is
  truncated towards zero and wrapped into the signed 32-bit range.
\<close>

definition trunc_real :: "real \<Rightarrow> int" where
  "trunc_real a = (if 0 \<le> a then \<lfloor>a\<rfloor> else \<lceil>a\<rceil>)"

definition wrap_int32 :: "int \<Rightarrow> int" where
  "wrap_int32 i = (let m = i mod 2 ^ 32 in if 2 ^ 31 \<le> m then m - 2 ^ 32 else m)"

fun to_int32 :: "jsnum \<Rightarrow> jsnum" where
  "to_int32 (Num a) = Num (of_int (wrap_int32 (trunc_real a)))"
| "to_int32 _ = Num 0"

section \<open>The scale method names\<close>

text \<open>
  \<^verbatim>\<open>init\<close> tests the scale method with
  \<^verbatim>\<open>scaleMethod.search(/^(fill-(min|max)|fit|flex(-(width|height))?|stretch)$/) !== 0\<close>.
  The pattern language used there is literals, alternation, sequence and \<^verbatim>\<open>?\<close>.
  \<open>rests r s\<close> lists what is left of \<open>s\<close> after each way \<open>r\<close> matches a prefix of it.
\<close>

datatype regex = Lit string | Alt regex regex | Seq regex regex | Opt regex

fun rests :: "regex \<Rightarrow> string \<Rightarrow> string list" where
  "rests (Lit w) s = (if take (length w) s = w then [drop (length w) s] else [])"
| "rests (Alt a b) s = rests a s @ rests b s"
| "rests (Seq a b) s = concat (map (rests b) (rests a s))"
| "rests (Opt a) s = rests a s @ [s]"

text \<open>
  \<^verbatim>\<open>s.search(/^r$/)\<close>: the index of the first match, or \<open>-1\<close>. Without the multiline
  flag \<^verbatim>\<open>^\<close> matches at index 0 only and \<^verbatim>\<open>$\<close> at the end of input only, so the
  result is \<open>0\<close> when \<open>r\<close> matches the whole string and \<open>-1\<close> otherwise.
\<close>

definition search_anchored :: "regex \<Rightarrow> string \<Rightarrow> int" where
  "search_anchored r s = (if [] \<in> set (rests r s) then 0 else - 1)"

definition scaleMethod_regex :: regex where
  "scaleMethod_regex =
     Alt (Seq (Lit ''fill-'') (Alt (Lit ''min'') (Lit ''max'')))
      (Alt (Lit ''fit'')
        (Alt (Seq (Lit ''flex'') (Opt (Seq (Lit ''-'') (Alt (Lit ''width'') (Lit ''height'')))))
          (Lit ''stretch'')))"

text \<open>The seven scale methods that the documentation of \<^verbatim>\<open>init\<close> lists.\<close>

definition scale_methods :: "string list" where
  "scale_methods =
     [''fit'', ''fill-min'', ''fill-max'', ''flex'', ''flex-width'', ''flex-height'', ''stretch'']"

text \<open>The strings a pattern matches.\<close>

fun lang :: "regex \<Rightarrow> string set" where
  "lang (Lit w) = {w}"
| "lang (Alt a b) = lang a \<union> lang b"
| "lang (Seq a b) = (\<lambda>(u, v). u @ v) ` (lang a \<times> lang b)"
| "lang (Opt a) = insert [] (lang a)"

section \<open>Module state\<close>

datatype js_error = Error string | TypeError string

text \<open>
  \<^verbatim>\<open>options.scale\<close> is a number or the string \<^verbatim>\<open>"auto"\<close>; the boolean options are
  taken as booleans (\<^verbatim>\<open>!!b\<close> is then \<open>b\<close>).
\<close>

datatype scale_setting = ScaleAuto | ScaleNum jsnum

record settings =
  renderer_choice :: int
  doubleBuffering :: bool
  autoScale :: bool
  scale_opt :: scale_setting
  scaleMethod :: string
  transparent :: bool
  blendMode :: string
  antiAlias :: bool
  failIfMajorPerformanceCaveat :: bool
  subPixel :: bool
  preferWebGL1 :: bool
  powerPreference :: string
  verbose :: bool
  consoleHeader :: bool
  useParentDOMSize :: bool
  width :: jsnum
  height :: jsnum
  zoomX :: jsnum
  zoomY :: jsnum

text \<open>\<^verbatim>\<open>api.CANVAS\<close>, \<^verbatim>\<open>api.WEBGL\<close>, \<^verbatim>\<open>api.AUTO\<close>.\<close>

definition CANVAS :: int where "CANVAS = 0"
definition WEBGL :: int where "WEBGL = 1"
definition AUTO :: int where "AUTO = 2"

text \<open>
  The default video settings (the \<^verbatim>\<open>wrapper\<close> element is DOM wiring and is left out;
  \<^verbatim>\<open>useParentDOMSize\<close>, \<^verbatim>\<open>width\<close>, \<^verbatim>\<open>height\<close>, \<^verbatim>\<open>zoomX\<close>, \<^verbatim>\<open>zoomY\<close> are unset
  until \<^verbatim>\<open>init\<close> writes them).
\<close>

definition default_settings :: settings where
  "default_settings = \<lparr>
     renderer_choice = 2, doubleBuffering = False, autoScale = False,
     scale_opt = ScaleNum (Num 1), scaleMethod = ''fit'', transparent = False,
     blendMode = ''normal'', antiAlias = False, failIfMajorPerformanceCaveat = True,
     subPixel = False, preferWebGL1 = True, powerPreference = ''default'',
     verbose = False, consoleHeader = True, useParentDOMSize = False,
     width = Num 0, height = Num 0, zoomX = Num 0, zoomY = Num 0 \<rparr>"

datatype backend = WebGLRenderer | CanvasRenderer

text \<open>A CSS length as the source writes it: a number followed by \<^verbatim>\<open>"px"\<close>.\<close>

datatype css_length = Px jsnum

text \<open>
  The renderer and its screen canvas: the physical size of the canvas
  (\<^verbatim>\<open>canvas.width\<close>, \<^verbatim>\<open>canvas.height\<close>), its style size, the settings the renderer was
  built with (\<^verbatim>\<open>renderer.settings\<close>) and the flags last applied to the screen context.
\<close>

record renderer =
  canvas_width :: jsnum
  canvas_height :: jsnum
  style_width :: "css_length option"
  style_height :: "css_length option"
  settings_antiAlias :: bool
  settings_blendMode :: string
  context_antiAlias :: "bool option"
  context_blendMode :: "string option"

text \<open>What a pending timer will call: \<^verbatim>\<open>onresize()\<close> or \<^verbatim>\<open>scale(x, y)\<close>.\<close>

datatype callback = CallOnresize | CallScale jsnum jsnum

text \<open>Requests the module sends out, in order.\<close>

datatype notification = UpdateBounds | Repaint | VideoInit

record video_state =
  deferResizeId :: int
  designRatio :: jsnum
  designWidth :: jsnum
  designHeight :: jsnum
  maxWidth :: jsnum
  maxHeight :: jsnum
  settings :: settings
  renderer :: "renderer option"
  sys_scale :: "jsnum \<times> jsnum"
  timers :: "(nat \<times> callback) list"
  next_timer :: nat
  sent :: "notification list"

text \<open>
  The state when the module is loaded. \<^verbatim>\<open>me.video.renderer\<close> is undefined until
  \<^verbatim>\<open>init\<close>; \<^verbatim>\<open>me.sys.scale\<close> is written by \<^verbatim>\<open>init\<close> before anything reads it.
\<close>

definition initial_state :: video_state where
  "initial_state = \<lparr>
     deferResizeId = - 1, designRatio = Num 1, designWidth = Num 0, designHeight = Num 0,
     maxWidth = PInf, maxHeight = PInf, settings = default_settings, renderer = None,
     sys_scale = (Num 1, Num 1), timers = [], next_timer = 1, sent = [] \<rparr>"

section \<open>Collaborators\<close>

text \<open>
  Modelled from the spec: \<^verbatim>\<open>me.utils.function.defer\<close> is not part of
  \<^verbatim>\<open>video.js\<close>. The spec gives a task-deferral primitive
  \<open>defer(fn) -> cancellable token\<close>, single-shot. A token is a fresh positive integer (the
  source tests \<^verbatim>\<open>deferResizeId > 0\<close>); pending callbacks fire in the order they were
  scheduled.
\<close>

definition defer_fn :: "callback \<Rightarrow> video_state \<Rightarrow> nat \<times> video_state" where
  "defer_fn cb s =
     (next_timer s,
      s\<lparr>timers := timers s @ [(next_timer s, cb)], next_timer := Suc (next_timer s)\<rparr>)"

text \<open>
  Modelled from the spec: the host's \<^verbatim>\<open>clearTimeout\<close> cancels the pending callback of
  a token (the spec's cancellable token); a token that is not pending is ignored.
\<close>

definition clearTimeout :: "int \<Rightarrow> video_state \<Rightarrow> video_state" where
  "clearTimeout i s = s\<lparr>timers := filter (\<lambda>(j, cb). int j \<noteq> i) (timers s)\<rparr>"

text \<open>
  Modelled from the spec: \<^verbatim>\<open>renderer.resize\<close> is not part of \<^verbatim>\<open>video.js\<close>. The spec
  gives the surface handle \<open>resize(w,h)\<close>, which sets the physical size of the surface.
\<close>

definition resize :: "jsnum \<Rightarrow> jsnum \<Rightarrow> renderer \<Rightarrow> renderer" where
  "resize w h r = r\<lparr>canvas_width := w, canvas_height := h\<rparr>"

text \<open>
  Modelled from the spec: \<^verbatim>\<open>renderer.setAntiAlias\<close> is not part of \<^verbatim>\<open>video.js\<close>. The
  spec gives \<open>setAntiAlias(flag)\<close>, which re-applies the antialiasing flag of the
  screen context.
\<close>

definition setAntiAlias :: "bool \<Rightarrow> renderer \<Rightarrow> renderer" where
  "setAntiAlias flag r = r\<lparr>context_antiAlias := Some flag\<rparr>"

text \<open>
  Modelled from the spec: \<^verbatim>\<open>renderer.setBlendMode\<close> is not part of \<^verbatim>\<open>video.js\<close>. The
  spec gives \<open>setBlendMode(mode)\<close>, which re-applies the blend mode of the screen
  context.
\<close>

definition setBlendMode :: "string \<Rightarrow> renderer \<Rightarrow> renderer" where
  "setBlendMode mode r = r\<lparr>context_blendMode := Some mode\<rparr>"

definition notify :: "notification \<Rightarrow> video_state \<Rightarrow> video_state" where
  "notify n s = s\<lparr>sent := sent s @ [n]\<rparr>"

text \<open>
  Modelled from the spec: \<^verbatim>\<open>renderer.updateBounds\<close> is not part of \<^verbatim>\<open>video.js\<close>. The
  spec gives \<open>updateBounds()\<close>, a request for a bounds refresh.
\<close>

definition updateBounds :: "video_state \<Rightarrow> video_state" where
  "updateBounds s = notify UpdateBounds s"

text \<open>
  Modelled from the spec: \<^verbatim>\<open>me.game.repaint\<close> is not part of \<^verbatim>\<open>video.js\<close>. The spec
  gives a request for a full-scene repaint, which signals and does not itself draw.
\<close>

definition repaint :: "video_state \<Rightarrow> video_state" where
  "repaint s = notify Repaint s"

text \<open>
  What the host reports when \<^verbatim>\<open>onresize\<close> runs: the parent node of the screen canvas
  (undefined where the DOM is not implemented, \<^verbatim>\<open>null\<close> for a detached canvas, else a
  node with its bounding rectangle when \<^verbatim>\<open>getBoundingClientRect\<close> is a function, and
  its \<^verbatim>\<open>width\<close> and \<^verbatim>\<open>height\<close> properties), the window's inner size and the device
  pixel ratio.
\<close>

record rect =
  rect_width :: jsnum
  rect_height :: jsnum
  rect_left :: jsnum
  rect_right :: jsnum
  rect_top :: jsnum
  rect_bottom :: jsnum

datatype parent_node = ParentUndefined | ParentNull | ParentNode "rect option" jsval jsval

record host =
  parentNode :: parent_node
  innerWidth :: jsnum
  innerHeight :: jsnum
  devicePixelRatio :: jsnum

section \<open>Applying a scale: \<^verbatim>\<open>api.scale\<close>\<close>

text \<open>
  Modelled from the spec: \<^verbatim>\<open>me.Vector2d.set\<close>, which \<^verbatim>\<open>me.sys.scale.set(x, y)\<close>
  calls, is not part of \<^verbatim>\<open>video.js\<close>. The spec has a current-scale value whose factors
  are numbers; as in melonJS, \<open>set\<close> refuses an argument that is not a number (\<open>NaN\<close>)
  with an exception and writes nothing, and stores any other pair.
\<close>

definition vector2d_set :: "jsnum \<Rightarrow> jsnum \<Rightarrow> js_error + (jsnum \<times> jsnum)" where
  "vector2d_set x y =
     (if x = NaN \<or> y = NaN then Inl (Error ''invalid x,y parameters (not a number)'')
      else Inr (x, y))"

text \<open>
  \<^verbatim>\<open>this.renderer.getScreenCanvas()\<close> raises a \<open>TypeError\<close> while the renderer is
  undefined, and \<^verbatim>\<open>me.sys.scale.set\<close> may raise; nothing has been written by then.
\<close>

definition scale :: "jsnum \<Rightarrow> jsnum \<Rightarrow> host \<Rightarrow> video_state \<Rightarrow> js_error + video_state" where
  "scale x y env s =
     (case renderer s of
        None \<Rightarrow> Inl (TypeError ''renderer is undefined'')
      | Some canvas \<Rightarrow>
          let w = js_mul (canvas_width canvas) x;
              h = js_mul (canvas_height canvas) y
          in
          (case vector2d_set x y of
             Inl e \<Rightarrow> Inl e
           | Inr v \<Rightarrow>
               let s1 = s\<lparr>sys_scale := v\<rparr>;
                   canvas1 =
                     (if js_gt (devicePixelRatio env) (Num 1)
                      then canvas\<lparr>style_width := Some (Px (js_div w (devicePixelRatio env))),
                                  style_height := Some (Px (js_div h (devicePixelRatio env)))\<rparr>
                      else canvas\<lparr>style_width := Some (Px w), style_height := Some (Px h)\<rparr>);
                   canvas2 = setAntiAlias (settings_antiAlias canvas1) canvas1;
                   canvas3 = setBlendMode (settings_blendMode canvas2) canvas2;
                   s2 = updateBounds (s1\<lparr>renderer := Some canvas3\<rparr>);
                   s3 = repaint s2
               in Inr (s3\<lparr>deferResizeId := - 1\<rparr>)))"

section \<open>The resize computation: \<^verbatim>\<open>api.onresize\<close>\<close>

text \<open>
  The size of the parent node, as \<^verbatim>\<open>parentNodeWidth\<close> and \<^verbatim>\<open>parentNodeHeight\<close>: both
  stay undefined when the parent node is; reading a property of \<^verbatim>\<open>null\<close> raises.
\<close>

definition parent_size :: "settings \<Rightarrow> parent_node \<Rightarrow> js_error + (jsval \<times> jsval)" where
  "parent_size st p =
     (case p of
        ParentUndefined \<Rightarrow> Inr (Undefined, Undefined)
      | ParentNull \<Rightarrow> Inl (TypeError ''parentNode is null'')
      | ParentNode bounding w h \<Rightarrow>
          (case bounding of
             Some rect \<Rightarrow>
               if useParentDOMSize st
               then Inr (Val (js_or (rect_width rect) (js_sub (rect_right rect) (rect_left rect))),
                         Val (js_or (rect_height rect) (js_sub (rect_bottom rect) (rect_top rect))))
               else Inr (w, h)
           | None \<Rightarrow> Inr (w, h)))"

text \<open>\<^verbatim>\<open>_max_width\<close> and \<^verbatim>\<open>_max_height\<close>.\<close>

definition max_size :: "video_state \<Rightarrow> host \<Rightarrow> js_error + (jsnum \<times> jsnum)" where
  "max_size s env =
     (case parent_size (settings s) (parentNode env) of
        Inl e \<Rightarrow> Inl e
      | Inr (parentNodeWidth, parentNodeHeight) \<Rightarrow>
          Inr (js_floor (js_min (maxWidth s) (js_or_val parentNodeWidth (innerWidth env))),
               js_floor (js_min (maxHeight s) (js_or_val parentNodeHeight (innerHeight env)))))"

text \<open>
  The chain of scale methods: from \<^verbatim>\<open>_max_width\<close>, \<^verbatim>\<open>_max_height\<close> and the renderer to
  \<^verbatim>\<open>scaleX\<close>, \<^verbatim>\<open>scaleY\<close> (before the pixel ratio) and the renderer, resized or not.
\<close>

definition scale_method_chain ::
  "video_state \<Rightarrow> jsnum \<Rightarrow> jsnum \<Rightarrow> renderer \<Rightarrow> jsnum \<times> jsnum \<times> renderer" where
  "scale_method_chain s max_width max_height r =
     (let method = scaleMethod (settings s);
          screenRatio = js_div max_width max_height
      in
      if (method = ''fill-min'' \<and> js_gt screenRatio (designRatio s)) \<or>
         (method = ''fill-max'' \<and> js_lt screenRatio (designRatio s)) \<or>
         method = ''flex-width''
      then
        let sWidth = js_min (maxWidth s) (js_mul (designHeight s) screenRatio);
            sc = js_div max_width sWidth
        in (sc, sc, resize (to_int32 (js_add sWidth (Num (1 / 2)))) (designHeight s) r)
      else if (method = ''fill-min'' \<and> js_lt screenRatio (designRatio s)) \<or>
              (method = ''fill-max'' \<and> js_gt screenRatio (designRatio s)) \<or>
              method = ''flex-height''
      then
        let sHeight = js_min (maxHeight s) (js_mul (designWidth s) (js_div max_height max_width));
            sc = js_div max_height sHeight
        in (sc, sc, resize (designWidth s) (to_int32 (js_add sHeight (Num (1 / 2)))) r)
      else if method = ''flex''
      then (Num 1, Num 1, resize max_width max_height r)
      else if method = ''stretch''
      then (js_div max_width (designWidth s), js_div max_height (designHeight s), r)
      else if js_lt screenRatio (designRatio s)
      then (let sc = js_div max_width (designWidth s) in (sc, sc, r))
      else (let sc = js_div max_height (designHeight s) in (sc, sc, r)))"

text \<open>
  \<^verbatim>\<open>onresize(force)\<close>; \<open>force\<close> stands for \<^verbatim>\<open>force === true\<close>. The call returns
  the new state, or raises and leaves a state: a renderer that is undefined, or a parent
  node that is \<^verbatim>\<open>null\<close>, raises before anything is written; an exception of
  \<^verbatim>\<open>scale\<close> in a forced call comes after the canvas was resized and the pending
  callback cancelled.
\<close>

definition onresize ::
  "bool \<Rightarrow> host \<Rightarrow> video_state \<Rightarrow> (js_error \<times> video_state) + video_state" where
  "onresize force env s =
     (case renderer s of
        None \<Rightarrow> Inl (TypeError ''renderer is undefined'', s)
      | Some r \<Rightarrow>
          if autoScale (settings s) then
            (case max_size s env of
               Inl e \<Rightarrow> Inl (e, s)
             | Inr (max_width, max_height) \<Rightarrow>
                 (case scale_method_chain s max_width max_height r of
                    (scaleX0, scaleY0, r1) \<Rightarrow>
                      let scaleX = js_mul scaleX0 (devicePixelRatio env);
                          scaleY = js_mul scaleY0 (devicePixelRatio env);
                          s1 = s\<lparr>renderer := Some r1\<rparr>;
                          s2 = (if 0 < deferResizeId s1 then clearTimeout (deferResizeId s1) s1
                                else s1)
                      in
                      if \<not> force then
                        (case defer_fn (CallScale scaleX scaleY) s2 of
                           (token, s3) \<Rightarrow> Inr (updateBounds (s3\<lparr>deferResizeId := int token\<rparr>)))
                      else
                        (case scale scaleX scaleY env s2 of
                           Inl e \<Rightarrow> Inl (e, s2)
                         | Inr s3 \<Rightarrow> Inr (updateBounds s3))))
          else Inr (updateBounds s))"

text \<open>The state a call of \<^verbatim>\<open>onresize\<close> leaves, whether it returned or raised.\<close>

definition left_by :: "(js_error \<times> video_state) + video_state \<Rightarrow> video_state" where
  "left_by res = (case res of Inl (e, s) \<Rightarrow> s | Inr s \<Rightarrow> s)"

section \<open>\<^verbatim>\<open>api.setMaxSize\<close>\<close>

definition setMaxSize :: "jsnum \<Rightarrow> jsnum \<Rightarrow> video_state \<Rightarrow> video_state" where
  "setMaxSize w h s =
     snd (defer_fn CallOnresize (s\<lparr>maxWidth := js_or w PInf, maxHeight := js_or h PInf\<rparr>))"

section \<open>Pending callbacks\<close>

text \<open>
  A deferred \<^verbatim>\<open>onresize\<close> is called without arguments, so not forced. An exception of a
  callback is reported by the host and the state stays as the callback left it.
\<close>

definition run_callback :: "callback \<Rightarrow> host \<Rightarrow> video_state \<Rightarrow> video_state" where
  "run_callback cb env s =
     (case cb of
        CallOnresize \<Rightarrow> left_by (onresize False env s)
      | CallScale x y \<Rightarrow> (case scale x y env s of Inl e \<Rightarrow> s | Inr s' \<Rightarrow> s'))"

text \<open>The host fires the pending callback of a token, once.\<close>

definition fire :: "nat \<Rightarrow> host \<Rightarrow> video_state \<Rightarrow> video_state" where
  "fire token env s =
     (case map_of (timers s) token of
        None \<Rightarrow> s
      | Some cb \<Rightarrow> run_callback cb env (s\<lparr>timers := filter (\<lambda>(j, c). j \<noteq> token) (timers s)\<rparr>))"

text \<open>
  Two kinds of deferred call can be pending: the applications of a scale that a call of
  \<^verbatim>\<open>onresize\<close> that is not forced schedules (line 473), whose token \<^verbatim>\<open>deferResizeId\<close>
  keeps, and the calls of \<^verbatim>\<open>onresize\<close> that \<^verbatim>\<open>setMaxSize\<close> schedules (line 346), whose
  token is dropped. Each kind is listed by a function of its own, oldest first;
  together the two lists hold every pending callback.
\<close>

fun pending_scales :: "(nat \<times> callback) list \<Rightarrow> (nat \<times> jsnum \<times> jsnum) list" where
  "pending_scales [] = []"
| "pending_scales ((i, CallScale x y) # ts) = (i, x, y) # pending_scales ts"
| "pending_scales ((i, CallOnresize) # ts) = pending_scales ts"

fun pending_onresizes :: "(nat \<times> callback) list \<Rightarrow> nat list" where
  "pending_onresizes [] = []"
| "pending_onresizes ((i, CallScale x y) # ts) = pending_onresizes ts"
| "pending_onresizes ((i, CallOnresize) # ts) = i # pending_onresizes ts"

text \<open>The pending callbacks once \<^verbatim>\<open>onresize\<close> has cancelled the one it tracks.\<close>

definition after_cancel :: "video_state \<Rightarrow> (nat \<times> callback) list" where
  "after_cancel s =
     (if 0 < deferResizeId s then filter (\<lambda>(j, c). int j \<noteq> deferResizeId s) (timers s)
      else timers s)"

section \<open>Choosing the renderer\<close>

text \<open>
  The capability probe \<^verbatim>\<open>me.device.isWebGLSupported\<close> and the two constructors are
  not part of \<^verbatim>\<open>video.js\<close>; each is a parameter: what it returns, or the exception it
  raises, for the given settings.
\<close>

record device =
  isWebGLSupported :: "settings \<Rightarrow> js_error + bool"
  newWebGLRenderer :: "settings \<Rightarrow> js_error + renderer"
  newCanvasRenderer :: "settings \<Rightarrow> js_error + renderer"

text \<open>What a call did, in order: the probe, and each constructor call with its outcome.\<close>

datatype attempt = Probed | Constructed backend | Failed backend

definition construct_canvas :: "device \<Rightarrow> settings \<Rightarrow> (js_error + renderer) \<times> attempt list" where
  "construct_canvas dev opts =
     (case newCanvasRenderer dev opts of
        Inl e \<Rightarrow> (Inl e, [Failed CanvasRenderer])
      | Inr r \<Rightarrow> (Inr r, [Constructed CanvasRenderer]))"

text \<open>
  \<^verbatim>\<open>autoDetectRenderer\<close>: an exception of the probe or of the WebGL constructor is
  caught and logged, and the canvas renderer is constructed outside the \<^verbatim>\<open>try\<close>.
\<close>

definition autoDetectRenderer :: "device \<Rightarrow> settings \<Rightarrow> (js_error + renderer) \<times> attempt list" where
  "autoDetectRenderer dev opts =
     (case isWebGLSupported dev opts of
        Inl e \<Rightarrow> (case construct_canvas dev opts of (res, tr) \<Rightarrow> (res, Probed # tr))
      | Inr False \<Rightarrow> (case construct_canvas dev opts of (res, tr) \<Rightarrow> (res, Probed # tr))
      | Inr True \<Rightarrow>
          (case newWebGLRenderer dev opts of
             Inr r \<Rightarrow> (Inr r, [Probed, Constructed WebGLRenderer])
           | Inl e \<Rightarrow>
               (case construct_canvas dev opts of
                  (res, tr) \<Rightarrow> (res, Probed # Failed WebGLRenderer # tr))))"

text \<open>The \<^verbatim>\<open>switch (settings.renderer)\<close> of \<^verbatim>\<open>init\<close>.\<close>

definition select_renderer :: "device \<Rightarrow> settings \<Rightarrow> (js_error + renderer) \<times> attempt list" where
  "select_renderer dev st =
     (if renderer_choice st = AUTO \<or> renderer_choice st = WEBGL
      then autoDetectRenderer dev st
      else construct_canvas dev st)"

text \<open>The constructors a call ran, and the backends it constructed, in order.\<close>

fun attempted :: "attempt list \<Rightarrow> backend list" where
  "attempted [] = []"
| "attempted (Probed # tr) = attempted tr"
| "attempted (Constructed k # tr) = k # attempted tr"
| "attempted (Failed k # tr) = k # attempted tr"

fun constructed :: "attempt list \<Rightarrow> backend list" where
  "constructed [] = []"
| "constructed (Constructed k # tr) = k # constructed tr"
| "constructed (a # tr) = constructed tr"

section \<open>\<^verbatim>\<open>api.init\<close>\<close>

text \<open>The options object: each property is given or not.\<close>

record options =
  opt_renderer :: "int option"
  opt_doubleBuffering :: "bool option"
  opt_scale :: "scale_setting option"
  opt_scaleMethod :: "string option"
  opt_transparent :: "bool option"
  opt_blendMode :: "string option"
  opt_antiAlias :: "bool option"
  opt_failIfMajorPerformanceCaveat :: "bool option"
  opt_subPixel :: "bool option"
  opt_preferWebGL1 :: "bool option"
  opt_powerPreference :: "string option"
  opt_verbose :: "bool option"
  opt_consoleHeader :: "bool option"
  opt_useParentDOMSize :: "bool option"

definition given :: "'a option \<Rightarrow> 'a \<Rightarrow> 'a" where
  "given v old = (case v of None \<Rightarrow> old | Some x \<Rightarrow> x)"

text \<open>\<^verbatim>\<open>Object.assign(settings, options || {})\<close>.\<close>

definition assign :: "settings \<Rightarrow> options \<Rightarrow> settings" where
  "assign st opts = st\<lparr>
     renderer_choice := given (opt_renderer opts) (renderer_choice st),
     doubleBuffering := given (opt_doubleBuffering opts) (doubleBuffering st),
     scale_opt := given (opt_scale opts) (scale_opt st),
     scaleMethod := given (opt_scaleMethod opts) (scaleMethod st),
     transparent := given (opt_transparent opts) (transparent st),
     blendMode := given (opt_blendMode opts) (blendMode st),
     antiAlias := given (opt_antiAlias opts) (antiAlias st),
     failIfMajorPerformanceCaveat :=
       given (opt_failIfMajorPerformanceCaveat opts) (failIfMajorPerformanceCaveat st),
     subPixel := given (opt_subPixel opts) (subPixel st),
     preferWebGL1 := given (opt_preferWebGL1 opts) (preferWebGL1 st),
     powerPreference := given (opt_powerPreference opts) (powerPreference st),
     verbose := given (opt_verbose opts) (verbose st),
     consoleHeader := given (opt_consoleHeader opts) (consoleHeader st),
     useParentDOMSize := given (opt_useParentDOMSize opts) (useParentDOMSize st)\<rparr>"

text \<open>
  What \<^verbatim>\<open>init\<close> reads from its surroundings: \<^verbatim>\<open>me.initialized\<close>, the flags of the URI
  fragment, the device, whether \<^verbatim>\<open>window.getComputedStyle\<close> exists and the
  \<^verbatim>\<open>parseInt\<close> of the computed \<^verbatim>\<open>maxWidth\<close> and \<^verbatim>\<open>maxHeight\<close> of the canvas, and the
  host as \<^verbatim>\<open>onresize\<close> sees it.
\<close>

record boot =
  me_initialized :: bool
  uri_webgl :: bool
  uri_webgl1 :: bool
  uri_webgl2 :: bool
  boot_device :: device
  has_getComputedStyle :: bool
  css_maxWidth :: jsnum
  css_maxHeight :: jsnum
  boot_host :: host

text \<open>The sanitized settings of \<^verbatim>\<open>init\<close>, up to the test of the scale method.\<close>

definition sanitize :: "jsnum \<Rightarrow> jsnum \<Rightarrow> options \<Rightarrow> settings \<Rightarrow> settings" where
  "sanitize game_width game_height opts st =
     (let st1 = assign st opts;
          st2 = st1\<lparr>width := game_width, height := game_height,
                    autoScale := (scale_opt st1 = ScaleAuto)\<rparr>
      in if search_anchored scaleMethod_regex (scaleMethod st2) \<noteq> 0
         then st2\<lparr>scaleMethod := ''fit''\<rparr>
         else st2)"

text \<open>\<^verbatim>\<open>(settings.autoScale) ? 1.0 : (+settings.scale || 1.0)\<close>.\<close>

definition normalize_scale :: "settings \<Rightarrow> jsnum" where
  "normalize_scale st =
     (if autoScale st then Num 1
      else (case scale_opt st of ScaleNum n \<Rightarrow> js_or n (Num 1) | ScaleAuto \<Rightarrow> Num 1))"

text \<open>
  The first part of \<^verbatim>\<open>init\<close>, up to the default scaled size: the settings, the
  normalized scale in \<^verbatim>\<open>me.sys.scale\<close> and the design size. The console header is
  left out.
\<close>

definition configure :: "jsnum \<Rightarrow> jsnum \<Rightarrow> options \<Rightarrow> boot \<Rightarrow> video_state \<Rightarrow> video_state" where
  "configure game_width game_height opts b s =
     (let st1 = sanitize game_width game_height opts (settings s);
          st2 = (if uri_webgl b \<or> uri_webgl1 b \<or> uri_webgl2 b
                 then st1\<lparr>renderer_choice := WEBGL,
                          preferWebGL1 := (if uri_webgl2 b then False else preferWebGL1 st1)\<rparr>
                 else st1);
          sc = normalize_scale st2;
          st3 = st2\<lparr>scale_opt := ScaleNum sc\<rparr>;
          st4 = (if autoScale st3 \<or> sc \<noteq> Num 1 then st3\<lparr>doubleBuffering := True\<rparr> else st3);
          st5 = st4\<lparr>zoomX := js_mul game_width sc, zoomY := js_mul game_height sc\<rparr>
      in s\<lparr>settings := st5, sys_scale := (sc, sc),
            designRatio := js_div game_width game_height,
            designWidth := game_width, designHeight := game_height\<rparr>)"

text \<open>
  \<^verbatim>\<open>init\<close> returns its boolean or raises, and the state it leaves in both cases. The
  registration of the event listeners, the console header and the wrapper element are
  left out: they write nothing of the state below. In the \<^verbatim>\<open>catch\<close> of the renderer
  construction the handler calls \<^verbatim>\<open>console(e.message)\<close>: \<^verbatim>\<open>console\<close> is an object
  and not a function, so the call raises a \<open>TypeError\<close> and the \<^verbatim>\<open>return false\<close>
  after it is never reached.
\<close>

definition init ::
  "jsnum \<Rightarrow> jsnum \<Rightarrow> options \<Rightarrow> boot \<Rightarrow> video_state \<Rightarrow> (js_error + bool) \<times> video_state" where
  "init game_width game_height opts b s =
     (if \<not> me_initialized b
      then (Inl (Error ''me.video.init() called before engine initialization.''), s)
      else
        let s1 = configure game_width game_height opts b s in
        (case fst (select_renderer (boot_device b) (settings s1)) of
           Inl e \<Rightarrow> (Inl (TypeError ''console is not a function''), s1)
         | Inr r \<Rightarrow>
             let ratio = devicePixelRatio (boot_host b);
                 r1 = (if js_gt ratio (Num 1)
                       then r\<lparr>style_width := Some (Px (js_div (canvas_width r) ratio)),
                              style_height := Some (Px (js_div (canvas_height r) ratio))\<rparr>
                       else r);
                 s2 = s1\<lparr>renderer := Some r1\<rparr>;
                 s3 = (if has_getComputedStyle b
                       then setMaxSize (css_maxWidth b) (css_maxHeight b) s2
                       else s2)
             in
             (case onresize True (boot_host b) s3 of
                Inl (e, s4) \<Rightarrow> (Inl e, s4)
              | Inr s4 \<Rightarrow> (Inr True, notify VideoInit s4))))"

section \<open>The bookkeeping of the deferred \<^verbatim>\<open>scale\<close>\<close>

text \<open>
  The bookkeeping is coherent when the tokens of the pending callbacks are distinct,
  positive and already issued, \<^verbatim>\<open>deferResizeId\<close> is not a token still to be issued,
  and the pending applications of a scale are exactly the pending callbacks whose token
  \<^verbatim>\<open>deferResizeId\<close> is.
\<close>

fun is_scale :: "callback \<Rightarrow> bool" where
  "is_scale (CallScale x y) = True"
| "is_scale CallOnresize = False"

definition tracked :: "video_state \<Rightarrow> nat \<times> callback \<Rightarrow> bool" where
  "tracked s t =
     (0 < fst t \<and> fst t < next_timer s \<and> (is_scale (snd t) \<longleftrightarrow> int (fst t) = deferResizeId s))"

definition coherent :: "video_state \<Rightarrow> bool" where
  "coherent s \<longleftrightarrow>
     0 < next_timer s \<and> deferResizeId s < int (next_timer s) \<and>
     distinct (map fst (timers s)) \<and> list_all (tracked s) (timers s)"

section \<open>What a call of \<^verbatim>\<open>onresize\<close> leaves\<close>

text \<open>The physical size of the canvas and \<open>sys_scale\<close>, when the call returned.\<close>

definition surface_and_scale ::
  "(js_error \<times> video_state) + video_state \<Rightarrow> ((jsnum \<times> jsnum) \<times> (jsnum \<times> jsnum)) option" where
  "surface_and_scale res =
     (case res of
        Inl e \<Rightarrow> None
      | Inr s \<Rightarrow>
          (case renderer s of
             None \<Rightarrow> None
           | Some r \<Rightarrow> Some ((canvas_width r, canvas_height r), sys_scale s)))"

section \<open>The width branch as the specification reads it\<close>

text \<open>
  The specification's reading of the first branch, in its words: with
  \<open>clampedW = min(bounds.maxWidth, container.width)\<close>, \<open>clampedH\<close> likewise and
  \<open>screenRatio = clampedW / clampedH\<close>, the surface is resized to
  \<open>(round(min(clampedW, designHeight * screenRatio)), designHeight)\<close> and both factors
  are \<open>clampedW\<close> divided by that rounded width. The result is the surface size and the
  two factors.
\<close>

definition round_half_up :: "jsnum \<Rightarrow> jsnum" where
  "round_half_up a = js_floor (js_add a (Num (1 / 2)))"

definition spec_fill_width ::
  "jsnum \<Rightarrow> jsnum \<Rightarrow> jsnum \<Rightarrow> jsnum \<Rightarrow> jsnum \<Rightarrow> (jsnum \<times> jsnum) \<times> (jsnum \<times> jsnum)" where
  "spec_fill_width design_height bounds_maxWidth bounds_maxHeight container_width container_height =
     (let clampedW = js_min bounds_maxWidth container_width;
          clampedH = js_min bounds_maxHeight container_height;
          screenRatio = js_div clampedW clampedH;
          computed_width = round_half_up (js_min clampedW (js_mul design_height screenRatio))
      in ((computed_width, design_height),
          (js_div clampedW computed_width, js_div clampedW computed_width)))"

section \<open>Concrete inputs\<close>

text \<open>A renderer whose screen canvas is 800 by 600, built with the default settings.\<close>

definition canvas_800x600 :: renderer where
  "canvas_800x600 = \<lparr>
     canvas_width = Num 800, canvas_height = Num 600, style_width = None, style_height = None,
     settings_antiAlias = False, settings_blendMode = ''normal'',
     context_antiAlias = None, context_blendMode = None \<rparr>"

text \<open>
  The module after \<^verbatim>\<open>init(800, 600, {scale: "auto", scaleMethod: method})\<close> has built
  that renderer: automatic scaling, no maximum size, nothing pending.
\<close>

definition design_800x600 :: "string \<Rightarrow> video_state" where
  "design_800x600 method = initial_state\<lparr>
     designRatio := js_div (Num 800) (Num 600), designWidth := Num 800,
     designHeight := Num 600,
     settings := default_settings\<lparr>autoScale := True, scaleMethod := method,
       doubleBuffering := True, width := Num 800, height := Num 600,
       zoomX := Num 800, zoomY := Num 600\<rparr>,
     renderer := Some canvas_800x600\<rparr>"

text \<open>A window of the given inner size, its parent node without a size, pixel ratio one.\<close>

definition window :: "real \<Rightarrow> real \<Rightarrow> host" where
  "window w h = \<lparr>
     parentNode = ParentNode None Undefined Undefined,
     innerWidth = Num w, innerHeight = Num h, devicePixelRatio = Num 1 \<rparr>"

text \<open>An options object without properties.\<close>

definition no_options :: options where
  "no_options = \<lparr>
     opt_renderer = None, opt_doubleBuffering = None, opt_scale = None, opt_scaleMethod = None,
     opt_transparent = None, opt_blendMode = None, opt_antiAlias = None,
     opt_failIfMajorPerformanceCaveat = None, opt_subPixel = None, opt_preferWebGL1 = None,
     opt_powerPreference = None, opt_verbose = None, opt_consoleHeader = None,
     opt_useParentDOMSize = None \<rparr>"

text \<open>A canvas renderer as a constructor leaves it: the size and flags of its settings.\<close>

definition canvas_for :: "settings \<Rightarrow> renderer" where
  "canvas_for st = \<lparr>
     canvas_width = width st, canvas_height = height st, style_width = None,
     style_height = None, settings_antiAlias = antiAlias st,
     settings_blendMode = blendMode st, context_antiAlias = None, context_blendMode = None \<rparr>"

text \<open>A device without WebGL, whose canvas renderer can be constructed.\<close>

definition software_only :: device where
  "software_only = \<lparr>
     isWebGLSupported = (\<lambda>st. Inr False),
     newWebGLRenderer = (\<lambda>st. Inl (Error ''WebGL is not supported'')),
     newCanvasRenderer = (\<lambda>st. Inr (canvas_for st)) \<rparr>"

text \<open>A device that reports WebGL and whose WebGL constructor raises.\<close>

definition webgl_raises :: device where
  "webgl_raises = \<lparr>
     isWebGLSupported = (\<lambda>st. Inr True),
     newWebGLRenderer = (\<lambda>st. Inl (Error ''Could not create a WebGL context'')),
     newCanvasRenderer = (\<lambda>st. Inr (canvas_for st)) \<rparr>"

text \<open>A device on which neither renderer can be constructed.\<close>

definition no_renderer :: device where
  "no_renderer = \<lparr>
     isWebGLSupported = (\<lambda>st. Inr True),
     newWebGLRenderer = (\<lambda>st. Inl (Error ''Could not create a WebGL context'')),
     newCanvasRenderer = (\<lambda>st. Inl (Error ''Canvas is not supported'')) \<rparr>"

text \<open>
  An initialized engine in a browser: no flag in the URI fragment, no \<^verbatim>\<open>max-width\<close> or
  \<^verbatim>\<open>max-height\<close> in the computed style of the canvas (\<^verbatim>\<open>parseInt("none")\<close> is \<open>NaN\<close>).
\<close>

definition browser :: "device \<Rightarrow> host \<Rightarrow> boot" where
  "browser dev env = \<lparr>
     me_initialized = True, uri_webgl = False, uri_webgl1 = False, uri_webgl2 = False,
     boot_device = dev, has_getComputedStyle = True, css_maxWidth = NaN, css_maxHeight = NaN,
     boot_host = env \<rparr>"

text \<open>
  The module with the design of 800 by 600 and the method \<open>fit\<close> after a call of
  \<^verbatim>\<open>onresize\<close> that is not forced in a window of 1200 by 300; then either after a
  second one in a window of 2400 by 1200, or after the application has called
  \<^verbatim>\<open>scale(3, 3)\<close> itself and \<^verbatim>\<open>onresize\<close> was then called, not forced, in that window.
\<close>

definition resized_once :: video_state where
  "resized_once = design_800x600 ''fit''\<lparr>deferResizeId := 1,
     timers := [(1, CallScale (Num (1 / 2)) (Num (1 / 2)))], next_timer := 2,
     sent := [UpdateBounds]\<rparr>"

definition resized_twice :: video_state where
  "resized_twice = design_800x600 ''fit''\<lparr>deferResizeId := 2,
     timers := [(2, CallScale (Num 2) (Num 2))], next_timer := 3,
     sent := [UpdateBounds, UpdateBounds]\<rparr>"

definition scaled_directly :: video_state where
  "scaled_directly = resized_once\<lparr>deferResizeId := - 1, sys_scale := (Num 3, Num 3),
     renderer := Some (canvas_800x600\<lparr>style_width := Some (Px (Num 2400)),
       style_height := Some (Px (Num 1800)), context_antiAlias := Some False,
       context_blendMode := Some ''normal''\<rparr>),
     sent := [UpdateBounds, UpdateBounds, Repaint]\<rparr>"

definition resized_again :: video_state where
  "resized_again = scaled_directly\<lparr>deferResizeId := 2,
     timers := [(1, CallScale (Num (1 / 2)) (Num (1 / 2))), (2, CallScale (Num 2) (Num 2))],
     next_timer := 3,
     sent := [UpdateBounds, UpdateBounds, Repaint, UpdateBounds]\<rparr>"

section \<open>Rounding to a double\<close>

lemma round_half_even_int: "round_half_even (of_int n) = n"
  by (simp add: round_half_even_def)

lemma round_half_even_bounds:
  "of_int (round_half_even y) \<le> y + 1 / 2" "y - 1 / 2 \<le> of_int (round_half_even y)"
  by (auto simp add: round_half_even_def Let_def) linarith+

lemma dbl_exponent_eq:
  assumes "2 powi e \<le> \<bar>x\<bar>" and "\<bar>x\<bar> < 2 powi (e + 1)" and "- 1022 \<le> e"
  shows "dbl_exponent x = e"
proof -
  have pos: "0 < \<bar>x\<bar>"
    using assms(1) by (smt (verit) zero_less_power_int)
  have p: "(2::real) powr (of_int k) = 2 powi k" for k
    by (simp add: powr_real_of_int')
  have "2 powr (of_int e) \<le> \<bar>x\<bar>" "\<bar>x\<bar> < 2 powr (of_int (e + 1))"
    using assms(1,2) by (simp_all only: p)
  then have "\<lfloor>log 2 \<bar>x\<bar>\<rfloor> = e"
    using pos by (subst floor_log_eq_powr_iff) simp_all
  then show ?thesis
    using assms(3) by (simp add: dbl_exponent_def)
qed


lemma dbl_exponent_le:
  assumes "x \<noteq> 0" and "\<bar>x\<bar> < 2 powi (e + 1)" and "- 1022 \<le> e"
  shows "dbl_exponent x \<le> e"
proof -
  have p: "(2::real) powr (of_int k) = 2 powi k" for k
    by (simp add: powr_real_of_int')
  have "\<bar>x\<bar> < 2 powr (of_int (e + 1))"
    using assms(2) by (simp only: p)
  then have "log 2 \<bar>x\<bar> < of_int (e + 1)"
    using assms(1) by (subst log_less_iff) simp_all
  then have "\<lfloor>log 2 \<bar>x\<bar>\<rfloor> < e + 1"
    by (simp only: floor_less_iff)
  then show ?thesis
    using assms(3) by (simp add: dbl_exponent_def)
qed

lemma dbl_exponent_ge: "- 1022 \<le> dbl_exponent x"
  by (simp add: dbl_exponent_def)

lemma fl_exact:
  assumes "x = of_int m * 2 powi k" and "\<bar>m\<bar> < 2 ^ 53" and "- 1074 \<le> k"
    and "\<bar>x\<bar> < 2 powi 1024"
  shows "fl x = Num x"
proof (cases "x = 0")
  case True
  then show ?thesis by (simp add: fl_def)
next
  case False
  define d where "d = dbl_exponent x"
  have "\<bar>x\<bar> = of_int \<bar>m\<bar> * 2 powi k"
    by (simp add: assms(1) abs_mult)
  also have "\<dots> < 2 ^ 53 * 2 powi k"
  proof -
    have "(of_int \<bar>m\<bar> :: real) < of_int (2 ^ 53)"
      using assms(2) by (simp only: of_int_less_iff)
    then show ?thesis by simp
  qed
  also have "\<dots> = 2 powi (k + 53)"
    by (simp add: power_int_add)
  finally have lt: "\<bar>x\<bar> < 2 powi (k + 52 + 1)"
    by (simp add: add.commute add.left_commute)
  have "d \<le> max (- 1022) (k + 52)"
  proof (cases "- 1022 \<le> k + 52")
    case True
    with dbl_exponent_le [OF False lt] show ?thesis by (simp add: d_def)
  next
    case False
    have "\<bar>x\<bar> < 2 powi (- 1022 + 1)"
    proof -
      have "(2::real) powi (k + 52 + 1) \<le> 2 powi (- 1022 + 1)"
        using False by (intro power_int_increasing) simp_all
      with lt show ?thesis by linarith
    qed
    from dbl_exponent_le [OF \<open>x \<noteq> 0\<close> this] show ?thesis by (simp add: d_def)
  qed
  then have dk: "d - 52 \<le> k"
    using assms(3) by simp
  define j where "j = nat (k - (d - 52))"
  have k: "k = (d - 52) + int j"
    using dk by (simp add: j_def)
  have q: "x / 2 powi (d - 52) = of_int (m * 2 ^ j)"
    by (simp add: assms(1) k power_int_add)
  have "2 powi (d - 52) * of_int (round_half_even (x / 2 powi (d - 52))) = x"
    unfolding q round_half_even_int by (simp add: assms(1) k power_int_add)
  then show ?thesis
    using False assms(4) by (simp add: fl_def Let_def d_def [symmetric])
qed

lemma fl_int:
  assumes "\<bar>n\<bar> < 2 ^ 53"
  shows "fl (of_int n) = Num (of_int n)"
proof (rule fl_exact [where m = n and k = 0])
  show "real_of_int n = of_int n * 2 powi 0" by simp
  show "\<bar>n\<bar> < 2 ^ 53" by (rule assms)
  show "- 1074 \<le> (0::int)" by simp
  have "\<bar>real_of_int n\<bar> < 2 ^ 53"
    using assms by (metis of_int_abs of_int_less_iff of_int_numeral of_int_power)
  also have "\<dots> \<le> (2::real) powi 1024"
    by (simp add: power_int_def power_increasing)
  finally show "\<bar>real_of_int n\<bar> < 2 powi 1024" .
qed


lemma fl_at:
  assumes "2 powi e \<le> \<bar>x\<bar>" and "\<bar>x\<bar> < 2 powi (e + 1)" and "- 1022 \<le> e" and "e \<le> 1022"
  shows "fl x = Num (2 powi (e - 52) * of_int (round_half_even (x / 2 powi (e - 52))))"
proof -
  have nz: "x \<noteq> 0"
    using assms(1) by (smt (verit) zero_less_power_int)
  have d: "dbl_exponent x = e"
    using assms(1,2,3) by (rule dbl_exponent_eq)
  let ?u = "(2::real) powi (e - 52)"
  let ?n = "round_half_even (x / ?u)"
  have u: "0 < ?u" by simp
  have "\<bar>x / ?u\<bar> < 2 powi (e + 1) / ?u"
    using assms(2) u by (simp add: divide_strict_right_mono)
  also have "\<dots> = 2 ^ 53"
    by (simp add: power_int_diff power_int_add)
  finally have b: "\<bar>x / ?u\<bar> < 2 ^ 53" .
  have "of_int ?n \<le> x / ?u + 1 / 2" "x / ?u - 1 / 2 \<le> of_int ?n"
    by (rule round_half_even_bounds)+
  with b have "\<bar>real_of_int ?n\<bar> < 2 ^ 53 + 1"
    by linarith
  then have "\<bar>?n\<bar> < 2 ^ 53 + 1"
    by (metis (mono_tags, opaque_lifting) of_int_1 of_int_abs of_int_add of_int_less_iff
        of_int_numeral of_int_power)
  then have "\<bar>?n\<bar> \<le> 2 ^ 53" by simp
  then have "\<bar>real_of_int ?n\<bar> \<le> 2 ^ 53"
    by (metis of_int_abs of_int_le_iff of_int_numeral of_int_power)
  then have "\<bar>?u * of_int ?n\<bar> \<le> ?u * 2 ^ 53"
    using u by (simp add: abs_mult)
  also have "\<dots> = 2 powi (e + 1)"
    by (simp add: power_int_diff power_int_add)
  also have "\<dots> \<le> 2 powi 1023"
    using assms(4) by (intro power_int_increasing) simp_all
  also have "\<dots> < (2::real) powi 1024"
    by (intro power_int_strict_increasing) simp_all
  finally have "\<not> 2 powi 1024 \<le> \<bar>?u * of_int ?n\<bar>" by simp
  then show ?thesis
    using nz by (simp add: fl_def Let_def d)
qed

lemma fl_numeral:
  assumes "numeral n < (2::int) ^ 53"
  shows "fl (numeral n) = Num (numeral n)"
  using fl_int [of "numeral n"] assms by simp

lemma fl_one: "fl 1 = Num 1"
  using fl_int [of 1] by simp

lemma fl_half: "fl (1 / 2) = Num (1 / 2)"
  by (rule fl_exact [where m = 1 and k = "- 1"]) (simp_all add: power_int_minus)

section \<open>Properties of \<^verbatim>\<open>api.scale\<close>\<close>

lemma scale_result:
  assumes "renderer s = Some r" and "x \<noteq> NaN" and "y \<noteq> NaN"
  shows "scale x y env s = Inr (s\<lparr>
           sys_scale := (x, y),
           renderer := Some (r\<lparr>
             style_width := Some (Px (if js_gt (devicePixelRatio env) (Num 1)
               then js_div (js_mul (canvas_width r) x) (devicePixelRatio env)
               else js_mul (canvas_width r) x)),
             style_height := Some (Px (if js_gt (devicePixelRatio env) (Num 1)
               then js_div (js_mul (canvas_height r) y) (devicePixelRatio env)
               else js_mul (canvas_height r) y)),
             context_antiAlias := Some (settings_antiAlias r),
             context_blendMode := Some (settings_blendMode r)\<rparr>),
           sent := sent s @ [UpdateBounds, Repaint],
           deferResizeId := - 1\<rparr>)"
  using assms
  by (simp add: scale_def vector2d_set_def Let_def setAntiAlias_def setBlendMode_def
      updateBounds_def repaint_def notify_def)

lemma scale_undefined_renderer:
  "renderer s = None \<Longrightarrow> scale x y env s = Inl (TypeError ''renderer is undefined'')"
  by (simp add: scale_def)

lemma scale_not_a_number:
  assumes "renderer s = Some r" and "x = NaN \<or> y = NaN"
  shows "scale x y env s = Inl (Error ''invalid x,y parameters (not a number)'')"
  using assms by (auto simp add: scale_def vector2d_set_def Let_def)

lemma scale_returns:
  assumes "scale x y env s = Inr s'"
  obtains r where "renderer s = Some r" and "x \<noteq> NaN" and "y \<noteq> NaN"
  using assms
  by (cases "renderer s")
    (auto simp add: scale_def vector2d_set_def Let_def split: if_splits)

text \<open>
  Claim C10. A call \<open>scale x y\<close> on a module with a renderer either raises, when a
  factor is \<open>NaN\<close>, before anything is written, or returns, and then the physical
  width and height of the canvas after it are those before it; so are the settings the
  renderer was built with, the design size, the maximum size, the module settings and the
  pending callbacks. What is written is the style size, \<open>sys_scale\<close>, the flags of the
  context, the two requests sent and \<open>deferResizeId\<close>.
\<close>

theorem scale_keeps_physical_size:
  assumes "renderer s = Some r"
  shows "(x = NaN \<or> y = NaN \<longrightarrow>
            scale x y env s = Inl (Error ''invalid x,y parameters (not a number)'')) \<and>
         (x \<noteq> NaN \<and> y \<noteq> NaN \<longrightarrow>
           (\<exists>s' r'. scale x y env s = Inr s' \<and> renderer s' = Some r' \<and>
              canvas_width r' = canvas_width r \<and> canvas_height r' = canvas_height r \<and>
              settings_antiAlias r' = settings_antiAlias r \<and>
              settings_blendMode r' = settings_blendMode r \<and>
              designRatio s' = designRatio s \<and> designWidth s' = designWidth s \<and>
              designHeight s' = designHeight s \<and> maxWidth s' = maxWidth s \<and>
              maxHeight s' = maxHeight s \<and> settings s' = settings s \<and>
              timers s' = timers s \<and> next_timer s' = next_timer s))"
  using scale_not_a_number [OF assms, of x y env]
  by (auto simp add: scale_result [OF assms])

theorem scale_keeps_physical_size_witness:
  "renderer (design_800x600 ''fit'') = Some canvas_800x600 \<and>
   (\<exists>s' r'. scale (Num 2) (Num 3) (window 1200 300) (design_800x600 ''fit'') = Inr s' \<and>
      renderer s' = Some r' \<and> canvas_width r' = Num 800 \<and> canvas_height r' = Num 600 \<and>
      style_width r' = Some (Px (Num 1600)) \<and> style_height r' = Some (Px (Num 1800))) \<and>
   scale NaN (Num 3) (window 1200 300) (design_800x600 ''fit'') =
     Inl (Error ''invalid x,y parameters (not a number)'')"
proof -
  have r: "renderer (design_800x600 ''fit'') = Some canvas_800x600"
    by (simp add: design_800x600_def initial_state_def)
  note t = scale_keeps_physical_size [OF r, of "Num 2" "Num 3" "window 1200 300"]
  note n = scale_keeps_physical_size [OF r, of NaN "Num 3" "window 1200 300"]
  from t obtain s' r' where s': "scale (Num 2) (Num 3) (window 1200 300) (design_800x600 ''fit'') = Inr s'"
    and r': "renderer s' = Some r'"
    and w: "canvas_width r' = canvas_width canvas_800x600"
    and h: "canvas_height r' = canvas_height canvas_800x600"
    by auto
  from s' r' have "style_width r' = Some (Px (Num 1600)) \<and> style_height r' = Some (Px (Num 1800))"
    by (auto simp add: scale_result [OF r] window_def canvas_800x600_def js_gt_def fl_numeral)
  with r s' r' w h n show ?thesis
    by (simp add: canvas_800x600_def)
qed

text \<open>
  Claim C8. When a call \<open>scale x y\<close> has returned, the same call again returns as well:
  \<open>sys_scale\<close> is \<open>(x, y)\<close> after the first call and unchanged by the second, the style
  width and height of the canvas after the second call are those after the first, and
  the second call changes nothing of the state but the two requests it sends again.
\<close>

theorem scale_idempotent:
  assumes "scale x y env s = Inr s1"
  shows "\<exists>s2. scale x y env s1 = Inr s2 \<and>
           sys_scale s1 = (x, y) \<and> sys_scale s2 = sys_scale s1 \<and>
           map_option style_width (renderer s2) = map_option style_width (renderer s1) \<and>
           map_option style_height (renderer s2) = map_option style_height (renderer s1) \<and>
           s2 = s1\<lparr>sent := sent s1 @ [UpdateBounds, Repaint]\<rparr>"
proof -
  from assms obtain r where r: "renderer s = Some r" and n: "x \<noteq> NaN" "y \<noteq> NaN"
    by (rule scale_returns)
  show ?thesis
    using assms r n
    by (cases "js_gt (devicePixelRatio env) (Num 1)")
      (auto simp add: scale_def vector2d_set_def Let_def setAntiAlias_def setBlendMode_def
        updateBounds_def repaint_def notify_def)
qed

theorem scale_idempotent_witness:
  "\<exists>s1 s2. scale (Num 2) (Num 3) (window 1200 300) (design_800x600 ''fit'') = Inr s1 \<and>
     scale (Num 2) (Num 3) (window 1200 300) s1 = Inr s2 \<and>
     sys_scale s1 = (Num 2, Num 3) \<and> sys_scale s2 = (Num 2, Num 3) \<and>
     map_option style_width (renderer s1) = Some (Some (Px (Num 1600))) \<and>
     map_option style_width (renderer s2) = Some (Some (Px (Num 1600))) \<and>
     map_option style_height (renderer s1) = Some (Some (Px (Num 1800))) \<and>
     map_option style_height (renderer s2) = Some (Some (Px (Num 1800)))"
proof -
  have r: "renderer (design_800x600 ''fit'') = Some canvas_800x600"
    by (simp add: design_800x600_def initial_state_def)
  obtain s1 where s1: "scale (Num 2) (Num 3) (window 1200 300) (design_800x600 ''fit'') = Inr s1"
    by (simp add: scale_result [OF r])
  from scale_idempotent [OF s1] obtain s2
    where s2: "scale (Num 2) (Num 3) (window 1200 300) s1 = Inr s2"
      and sc: "sys_scale s1 = (Num 2, Num 3)" "sys_scale s2 = sys_scale s1"
      and st: "map_option style_width (renderer s2) = map_option style_width (renderer s1)"
        "map_option style_height (renderer s2) = map_option style_height (renderer s1)"
    by blast
  from s1 have "map_option style_width (renderer s1) = Some (Some (Px (Num 1600))) \<and>
      map_option style_height (renderer s1) = Some (Some (Px (Num 1800)))"
    by (auto simp add: scale_result [OF r] window_def canvas_800x600_def js_gt_def fl_numeral)
  with s1 s2 sc st show ?thesis
    by auto
qed

section \<open>Properties of \<^verbatim>\<open>api.setMaxSize\<close>\<close>

lemma js_min_PInf: "js_min PInf x = x"
  by (cases x) simp_all

text \<open>
  Claim C9. After \<open>setMaxSize w h\<close> each maximum is the argument when it is truthy and
  \<open>Infinity\<close> when it is zero or \<open>NaN\<close>, so \<open>setMaxSize 0 0\<close> leaves both maxima at
  \<open>Infinity\<close> and the size \<open>onresize\<close> then works with is the floor of the measured size; the call schedules one more callback, a deferred \<open>onresize\<close>, and that
  callback runs \<open>onresize\<close> not forced.
\<close>

theorem setMaxSize_falsy_is_unbounded:
  "maxWidth (setMaxSize w h s) = (if truthy w then w else PInf) \<and>
   maxHeight (setMaxSize w h s) = (if truthy h then h else PInf) \<and>
   maxWidth (setMaxSize (Num 0) (Num 0) s) = PInf \<and>
   maxHeight (setMaxSize (Num 0) (Num 0) s) = PInf \<and>
   maxWidth (setMaxSize NaN NaN s) = PInf \<and>
   maxHeight (setMaxSize NaN NaN s) = PInf \<and>
   max_size (setMaxSize (Num 0) (Num 0) s) env =
     (case parent_size (settings s) (parentNode env) of
        Inl e \<Rightarrow> Inl e
      | Inr (parentNodeWidth, parentNodeHeight) \<Rightarrow>
          Inr (js_floor (js_or_val parentNodeWidth (innerWidth env)),
               js_floor (js_or_val parentNodeHeight (innerHeight env)))) \<and>
   timers (setMaxSize w h s) = timers s @ [(next_timer s, CallOnresize)] \<and>
   run_callback CallOnresize env s' =
     (case onresize False env s' of Inl (e, s'') \<Rightarrow> s'' | Inr s'' \<Rightarrow> s'')"
  by (simp add: setMaxSize_def defer_fn_def js_or_def run_callback_def left_by_def
      max_size_def js_min_PInf split: sum.splits prod.splits)


section \<open>The scale method of \<^verbatim>\<open>init\<close>\<close>

lemma rests_Lit: "t \<in> set (rests (Lit w) s) \<longleftrightarrow> s = w @ t"
proof
  assume "t \<in> set (rests (Lit w) s)"
  then have "take (length w) s = w" and "t = drop (length w) s"
    by (simp_all split: if_splits)
  then show "s = w @ t"
    by (metis append_take_drop_id)
next
  assume "s = w @ t"
  then show "t \<in> set (rests (Lit w) s)"
    by simp
qed

lemma rests_lang: "t \<in> set (rests r s) \<longleftrightarrow> (\<exists>w \<in> lang r. s = w @ t)"
proof (induction r arbitrary: s t)
  case (Lit w)
  show ?case by (simp only: rests_Lit) simp
next
  case (Alt a b)
  then show ?case by auto
next
  case (Seq a b)
  have "t \<in> set (rests (Seq a b) s) \<longleftrightarrow> (\<exists>u \<in> set (rests a s). t \<in> set (rests b u))"
    by simp
  also have "\<dots> \<longleftrightarrow> (\<exists>u. (\<exists>w1 \<in> lang a. s = w1 @ u) \<and> (\<exists>w2 \<in> lang b. u = w2 @ t))"
    using Seq by blast
  also have "\<dots> \<longleftrightarrow> (\<exists>w \<in> lang (Seq a b). s = w @ t)"
    by fastforce
  finally show ?case .
next
  case (Opt a)
  then show ?case by auto
qed

lemma lang_scaleMethod_regex: "lang scaleMethod_regex = set scale_methods"
  by (auto simp add: scaleMethod_regex_def scale_methods_def)

lemma search_scaleMethod: "search_anchored scaleMethod_regex m = 0 \<longleftrightarrow> m \<in> set scale_methods"
  by (simp add: search_anchored_def rests_lang lang_scaleMethod_regex)

lemma sanitize_scaleMethod:
  "scaleMethod (sanitize w h (opts\<lparr>opt_scaleMethod := Some m\<rparr>) st) =
     (if m \<in> set scale_methods then m else ''fit'')"
  by (simp add: sanitize_def Let_def assign_def given_def search_scaleMethod)

lemma sanitize_unknown:
  assumes "m \<notin> set scale_methods"
  shows "sanitize w h (opts\<lparr>opt_scaleMethod := Some m\<rparr>) st =
         sanitize w h (opts\<lparr>opt_scaleMethod := Some ''fit''\<rparr>) st"
proof -
  have fit: "search_anchored scaleMethod_regex ''fit'' = 0"
    by (simp add: search_scaleMethod scale_methods_def)
  from assms have m: "search_anchored scaleMethod_regex m \<noteq> 0"
    by (simp add: search_scaleMethod)
  show ?thesis
    by (simp add: sanitize_def Let_def assign_def given_def fit m)
qed

lemma onresize_settings: "settings (left_by (onresize force env s)) = settings s"
  by (auto simp add: onresize_def left_by_def scale_def vector2d_set_def Let_def defer_fn_def
      clearTimeout_def updateBounds_def repaint_def notify_def
      split: option.splits if_splits sum.splits prod.splits)

lemma setMaxSize_settings: "settings (setMaxSize w h s) = settings s"
  by (simp add: setMaxSize_def defer_fn_def)

lemma configure_scaleMethod:
  "scaleMethod (settings (configure w h opts b s)) = scaleMethod (sanitize w h opts (settings s))"
  by (simp add: configure_def Let_def)

lemma init_scaleMethod:
  assumes "me_initialized b"
  shows "scaleMethod (settings (snd (init w h opts b s))) =
         scaleMethod (sanitize w h opts (settings s))"
proof -
  define r1 where "r1 r = (if js_gt (devicePixelRatio (boot_host b)) (Num 1)
        then r\<lparr>style_width := Some (Px (js_div (canvas_width r) (devicePixelRatio (boot_host b)))),
               style_height := Some (Px (js_div (canvas_height r) (devicePixelRatio (boot_host b))))\<rparr>
        else r)" for r :: renderer
  define s3 where "s3 r = (if has_getComputedStyle b
        then setMaxSize (css_maxWidth b) (css_maxHeight b)
          (configure w h opts b s\<lparr>renderer := Some (r1 r)\<rparr>)
        else configure w h opts b s\<lparr>renderer := Some (r1 r)\<rparr>)" for r
  have s3: "settings (s3 r) = settings (configure w h opts b s)" for r
    by (simp add: s3_def setMaxSize_settings)
  have i: "snd (init w h opts b s) =
      (case fst (select_renderer (boot_device b) (settings (configure w h opts b s))) of
         Inl e \<Rightarrow> configure w h opts b s
       | Inr r \<Rightarrow>
           (case onresize True (boot_host b) (s3 r) of
              Inl (e, s4) \<Rightarrow> s4
            | Inr s4 \<Rightarrow> notify VideoInit s4))"
    using assms
    by (simp add: init_def Let_def s3_def r1_def split: sum.splits prod.splits)
  have "settings (snd (init w h opts b s)) = settings (configure w h opts b s)"
  proof (cases "fst (select_renderer (boot_device b) (settings (configure w h opts b s)))")
    case (Inl e)
    then show ?thesis by (simp add: i)
  next
    case (Inr r)
    have "settings (left_by (onresize True (boot_host b) (s3 r))) = settings (s3 r)"
      by (rule onresize_settings)
    then show ?thesis
      by (simp add: i Inr s3 left_by_def notify_def split: sum.splits prod.splits)
  qed
  then show ?thesis
    by (simp add: configure_scaleMethod)
qed

lemma init_uninitialized:
  "\<not> me_initialized b \<Longrightarrow> snd (init w h opts b s) = s"
  by (simp add: init_def)

text \<open>
  Claim C7. The scale method \<^verbatim>\<open>init\<close> keeps is the one given when it is one of the
  seven names and \<open>fit\<close> otherwise; with a name that is not one of the seven, \<^verbatim>\<open>init\<close>
  returns (or raises) exactly what it does with \<open>fit\<close> and leaves the same state, whose
  scale method is \<open>fit\<close> once the engine is initialized.
\<close>

theorem unknown_scaleMethod_becomes_fit:
  "scaleMethod (sanitize w h (opts\<lparr>opt_scaleMethod := Some m\<rparr>) st) =
     (if m \<in> set scale_methods then m else ''fit'') \<and>
   (m \<notin> set scale_methods \<longrightarrow>
      init w h (opts\<lparr>opt_scaleMethod := Some m\<rparr>) b s =
      init w h (opts\<lparr>opt_scaleMethod := Some ''fit''\<rparr>) b s \<and>
      scaleMethod (settings (snd (init w h (opts\<lparr>opt_scaleMethod := Some m\<rparr>) b s))) =
        (if me_initialized b then ''fit'' else scaleMethod (settings s)))"
proof (intro conjI impI)
  show "scaleMethod (sanitize w h (opts\<lparr>opt_scaleMethod := Some m\<rparr>) st) =
     (if m \<in> set scale_methods then m else ''fit'')"
    by (rule sanitize_scaleMethod)
next
  assume m: "m \<notin> set scale_methods"
  show "init w h (opts\<lparr>opt_scaleMethod := Some m\<rparr>) b s =
      init w h (opts\<lparr>opt_scaleMethod := Some ''fit''\<rparr>) b s"
    unfolding init_def configure_def sanitize_unknown [OF m] ..
next
  assume m: "m \<notin> set scale_methods"
  show "scaleMethod (settings (snd (init w h (opts\<lparr>opt_scaleMethod := Some m\<rparr>) b s))) =
        (if me_initialized b then ''fit'' else scaleMethod (settings s))"
    using m by (simp add: init_scaleMethod sanitize_scaleMethod init_uninitialized)
qed

theorem unknown_scaleMethod_becomes_fit_witness:
  "''zoom'' \<notin> set scale_methods \<and>
   scaleMethod (sanitize (Num 800) (Num 600) (no_options\<lparr>opt_scaleMethod := Some ''zoom''\<rparr>)
     default_settings) = ''fit'' \<and>
   init (Num 800) (Num 600) (no_options\<lparr>opt_scaleMethod := Some ''zoom''\<rparr>)
     (browser software_only (window 1200 300)) initial_state =
   init (Num 800) (Num 600) (no_options\<lparr>opt_scaleMethod := Some ''fit''\<rparr>)
     (browser software_only (window 1200 300)) initial_state \<and>
   scaleMethod (settings (snd (init (Num 800) (Num 600)
     (no_options\<lparr>opt_scaleMethod := Some ''zoom''\<rparr>)
     (browser software_only (window 1200 300)) initial_state))) = ''fit''"
proof -
  have z: "''zoom'' \<notin> set scale_methods"
    by (simp add: scale_methods_def)
  have i: "me_initialized (browser software_only (window 1200 300))"
    by (simp add: browser_def)
  from z i unknown_scaleMethod_becomes_fit [where w = "Num 800" and h = "Num 600"
      and opts = no_options and m = "''zoom''" and st = default_settings
      and b = "browser software_only (window 1200 300)" and s = initial_state]
  show ?thesis by auto
qed


section \<open>Properties of the choice of the renderer\<close>

lemma construct_canvas_result: "fst (construct_canvas dev st) = newCanvasRenderer dev st"
  by (simp add: construct_canvas_def split: sum.splits)

lemma construct_canvas_attempted: "attempted (snd (construct_canvas dev st)) = [CanvasRenderer]"
  by (simp add: construct_canvas_def split: sum.splits)

lemma construct_canvas_constructed:
  "length (constructed (snd (construct_canvas dev st))) =
     (case newCanvasRenderer dev st of Inl e \<Rightarrow> 0 | Inr r \<Rightarrow> 1)"
  by (simp add: construct_canvas_def split: sum.splits)

lemma autoDetect_constructed:
  "length (constructed (snd (autoDetectRenderer dev st))) =
     (case fst (autoDetectRenderer dev st) of Inl e \<Rightarrow> 0 | Inr r \<Rightarrow> 1)"
  by (simp add: autoDetectRenderer_def construct_canvas_def split: sum.splits bool.splits)

text \<open>
  Claim C6. When the probe reports no WebGL, the WebGL constructor is not called and the
  result is that of the canvas constructor. When the probe reports WebGL and the WebGL
  constructor raises, the canvas constructor is called after it and its result is the
  result. When the settings ask for anything but \<open>AUTO\<close> or \<open>WEBGL\<close>, the canvas
  constructor is the only thing called: no probe, no WebGL constructor. A call that returns
  a renderer has constructed exactly one, a call that raises none.
\<close>

theorem select_renderer_fallback:
  "(isWebGLSupported dev st = Inr False \<longrightarrow>
      fst (autoDetectRenderer dev st) = newCanvasRenderer dev st \<and>
      attempted (snd (autoDetectRenderer dev st)) = [CanvasRenderer]) \<and>
   (isWebGLSupported dev st = Inr True \<and> newWebGLRenderer dev st = Inl e \<longrightarrow>
      fst (autoDetectRenderer dev st) = newCanvasRenderer dev st \<and>
      attempted (snd (autoDetectRenderer dev st)) = [WebGLRenderer, CanvasRenderer]) \<and>
   (renderer_choice st \<noteq> AUTO \<and> renderer_choice st \<noteq> WEBGL \<longrightarrow>
      fst (select_renderer dev st) = newCanvasRenderer dev st \<and>
      Probed \<notin> set (snd (select_renderer dev st)) \<and>
      attempted (snd (select_renderer dev st)) = [CanvasRenderer]) \<and>
   (renderer_choice st = AUTO \<or> renderer_choice st = WEBGL \<longrightarrow>
      select_renderer dev st = autoDetectRenderer dev st) \<and>
   length (constructed (snd (select_renderer dev st))) =
     (case fst (select_renderer dev st) of Inl e \<Rightarrow> 0 | Inr r \<Rightarrow> 1)"
proof (intro conjI impI)
  assume "isWebGLSupported dev st = Inr False"
  then show "fst (autoDetectRenderer dev st) = newCanvasRenderer dev st"
    and "attempted (snd (autoDetectRenderer dev st)) = [CanvasRenderer]"
    by (simp_all add: autoDetectRenderer_def construct_canvas_def split: sum.splits)
next
  assume "isWebGLSupported dev st = Inr True \<and> newWebGLRenderer dev st = Inl e"
  then show "fst (autoDetectRenderer dev st) = newCanvasRenderer dev st"
    and "attempted (snd (autoDetectRenderer dev st)) = [WebGLRenderer, CanvasRenderer]"
    by (simp_all add: autoDetectRenderer_def construct_canvas_def split: sum.splits)
next
  assume "renderer_choice st \<noteq> AUTO \<and> renderer_choice st \<noteq> WEBGL"
  then show "fst (select_renderer dev st) = newCanvasRenderer dev st"
    and "Probed \<notin> set (snd (select_renderer dev st))"
    and "attempted (snd (select_renderer dev st)) = [CanvasRenderer]"
    by (simp_all add: select_renderer_def construct_canvas_def split: sum.splits)
next
  assume "renderer_choice st = AUTO \<or> renderer_choice st = WEBGL"
  then show "select_renderer dev st = autoDetectRenderer dev st"
    by (auto simp add: select_renderer_def)
next
  show "length (constructed (snd (select_renderer dev st))) =
     (case fst (select_renderer dev st) of Inl e \<Rightarrow> 0 | Inr r \<Rightarrow> 1)"
    by (simp add: select_renderer_def autoDetect_constructed construct_canvas_constructed
        construct_canvas_result)
qed

theorem select_renderer_fallback_witness:
  "isWebGLSupported software_only default_settings = Inr False \<and>
   autoDetectRenderer software_only default_settings =
     (Inr (canvas_for default_settings), [Probed, Constructed CanvasRenderer]) \<and>
   isWebGLSupported webgl_raises default_settings = Inr True \<and>
   newWebGLRenderer webgl_raises default_settings = Inl (Error ''Could not create a WebGL context'') \<and>
   fst (autoDetectRenderer webgl_raises default_settings) = Inr (canvas_for default_settings) \<and>
   attempted (snd (autoDetectRenderer webgl_raises default_settings)) =
     [WebGLRenderer, CanvasRenderer] \<and>
   renderer_choice (default_settings\<lparr>renderer_choice := CANVAS\<rparr>) = CANVAS \<and>
   attempted (snd (select_renderer webgl_raises (default_settings\<lparr>renderer_choice := CANVAS\<rparr>))) =
     [CanvasRenderer] \<and>
   length (constructed (snd (select_renderer webgl_raises default_settings))) = 1"
proof -
  have a: "isWebGLSupported software_only default_settings = Inr False"
    by (simp add: software_only_def)
  have b: "isWebGLSupported webgl_raises default_settings = Inr True \<and>
      newWebGLRenderer webgl_raises default_settings = Inl (Error ''Could not create a WebGL context'')"
    by (simp add: webgl_raises_def)
  have c: "renderer_choice (default_settings\<lparr>renderer_choice := CANVAS\<rparr>) \<noteq> AUTO \<and>
      renderer_choice (default_settings\<lparr>renderer_choice := CANVAS\<rparr>) \<noteq> WEBGL"
    by (simp add: CANVAS_def AUTO_def WEBGL_def)
  have d: "renderer_choice default_settings = AUTO"
    by (simp add: default_settings_def AUTO_def)
  have n: "newCanvasRenderer webgl_raises = (\<lambda>st. Inr (canvas_for st))"
    "newCanvasRenderer software_only = (\<lambda>st. Inr (canvas_for st))"
    by (simp_all add: webgl_raises_def software_only_def)
  note s = select_renderer_fallback [where dev = software_only and st = default_settings]
  note w = select_renderer_fallback [where dev = webgl_raises and st = default_settings
      and e = "Error ''Could not create a WebGL context''"]
  note k = select_renderer_fallback [where dev = webgl_raises
      and st = "default_settings\<lparr>renderer_choice := CANVAS\<rparr>"]
  from a s have "fst (autoDetectRenderer software_only default_settings) =
      newCanvasRenderer software_only default_settings \<and>
      attempted (snd (autoDetectRenderer software_only default_settings)) = [CanvasRenderer]"
    by blast
  then have 1: "autoDetectRenderer software_only default_settings =
     (Inr (canvas_for default_settings), [Probed, Constructed CanvasRenderer])"
    by (simp add: autoDetectRenderer_def construct_canvas_def software_only_def)
  from b w have "fst (autoDetectRenderer webgl_raises default_settings) =
      newCanvasRenderer webgl_raises default_settings \<and>
      attempted (snd (autoDetectRenderer webgl_raises default_settings)) =
        [WebGLRenderer, CanvasRenderer]"
    by blast
  then have 2: "fst (autoDetectRenderer webgl_raises default_settings) =
      Inr (canvas_for default_settings) \<and>
      attempted (snd (autoDetectRenderer webgl_raises default_settings)) =
        [WebGLRenderer, CanvasRenderer]"
    by (simp add: n)
  from c k have 3: "attempted (snd (select_renderer webgl_raises
      (default_settings\<lparr>renderer_choice := CANVAS\<rparr>))) = [CanvasRenderer]"
    by blast
  from d w have sel: "select_renderer webgl_raises default_settings =
      autoDetectRenderer webgl_raises default_settings"
    by blast
  from w have "length (constructed (snd (select_renderer webgl_raises default_settings))) =
     (case fst (select_renderer webgl_raises default_settings) of Inl e \<Rightarrow> 0 | Inr r \<Rightarrow> 1)"
    by blast
  with sel 2 have 4: "length (constructed (snd (select_renderer webgl_raises default_settings))) = 1"
    by simp
  from a b 1 2 3 4 show ?thesis
    by (simp add: CANVAS_def)
qed

section \<open>Failure of the renderer construction in \<^verbatim>\<open>init\<close>\<close>

lemma select_renderer_no_backend:
  assumes "newCanvasRenderer dev st = Inl e1" and "newWebGLRenderer dev st = Inl e2"
  shows "fst (select_renderer dev st) = Inl e1"
  using assms
  by (simp add: select_renderer_def autoDetectRenderer_def construct_canvas_def
      split: sum.splits bool.splits)

text \<open>
  Claim C5. On an initialized engine, when the construction of the canvas renderer and
  of the WebGL renderer both raise, \<^verbatim>\<open>init\<close> does not return \<open>false\<close>: the handler of the
  exception raises a \<open>TypeError\<close> of its own, which reaches the caller.
\<close>

theorem init_raises_when_no_renderer:
  assumes "me_initialized b"
    and "newCanvasRenderer (boot_device b) = (\<lambda>st. Inl e1)"
    and "newWebGLRenderer (boot_device b) = (\<lambda>st. Inl e2)"
  shows "fst (init w h opts b s) = Inl (TypeError ''console is not a function'') \<and>
         fst (init w h opts b s) \<noteq> Inr False \<and>
         renderer (snd (init w h opts b s)) = renderer s"
proof -
  have "fst (select_renderer (boot_device b) st) = Inl e1" for st
    by (rule select_renderer_no_backend) (simp_all add: assms)
  then show ?thesis
    using assms(1) by (simp add: init_def Let_def configure_def)
qed

theorem init_raises_when_no_renderer_witness:
  "me_initialized (browser no_renderer (window 1200 300)) \<and>
   fst (init (Num 640) (Num 480) no_options (browser no_renderer (window 1200 300)) initial_state) =
     Inl (TypeError ''console is not a function'')"
proof -
  have i: "me_initialized (browser no_renderer (window 1200 300))"
    by (simp add: browser_def)
  have c: "newCanvasRenderer (boot_device (browser no_renderer (window 1200 300))) =
      (\<lambda>st. Inl (Error ''Canvas is not supported''))"
    by (simp add: browser_def no_renderer_def)
  have g: "newWebGLRenderer (boot_device (browser no_renderer (window 1200 300))) =
      (\<lambda>st. Inl (Error ''Could not create a WebGL context''))"
    by (simp add: browser_def no_renderer_def)
  from init_raises_when_no_renderer [OF i c g] i show ?thesis
    by simp
qed



section \<open>What \<^verbatim>\<open>onresize\<close> does with the computed scale\<close>

lemma fl_not_NaN: "fl x \<noteq> NaN"
  by (simp add: fl_def Let_def signed_inf_def)

lemma onresize_forced:
  assumes "autoScale (settings s)" and "renderer s = Some r"
    and "max_size s env = Inr (mw, mh)"
    and "scale_method_chain s mw mh r = (sx, sy, r1)"
    and "js_mul sx (devicePixelRatio env) \<noteq> NaN" and "js_mul sy (devicePixelRatio env) \<noteq> NaN"
  shows "\<exists>s' r'. onresize True env s = Inr s' \<and>
           sys_scale s' = (js_mul sx (devicePixelRatio env), js_mul sy (devicePixelRatio env)) \<and>
           renderer s' = Some r' \<and>
           canvas_width r' = canvas_width r1 \<and> canvas_height r' = canvas_height r1 \<and>
           deferResizeId s' = - 1 \<and> timers s' = after_cancel s \<and>
           next_timer s' = next_timer s"
  using assms
  by (simp add: onresize_def Let_def scale_result clearTimeout_def updateBounds_def notify_def
      after_cancel_def)

lemma onresize_forced_raises:
  assumes "autoScale (settings s)" and "renderer s = Some r"
    and "max_size s env = Inr (mw, mh)"
    and "scale_method_chain s mw mh r = (sx, sy, r1)"
    and "js_mul sx (devicePixelRatio env) = NaN \<or> js_mul sy (devicePixelRatio env) = NaN"
  shows "onresize True env s =
           Inl (Error ''invalid x,y parameters (not a number)'',
                s\<lparr>renderer := Some r1, timers := after_cancel s\<rparr>)"
proof (cases "0 < deferResizeId s")
  case True
  let ?s2 = "clearTimeout (deferResizeId s) (s\<lparr>renderer := Some r1\<rparr>)"
  have r: "renderer ?s2 = Some r1" by (simp add: clearTimeout_def)
  have e: "?s2 = s\<lparr>renderer := Some r1, timers := after_cancel s\<rparr>"
    using True by (simp add: clearTimeout_def after_cancel_def)
  show ?thesis
    using assms(1,2,3,4) True
    by (simp add: onresize_def Let_def scale_not_a_number [OF r assms(5)] e [symmetric])
next
  case False
  let ?s2 = "s\<lparr>renderer := Some r1\<rparr>"
  have r: "renderer ?s2 = Some r1" by simp
  have e: "?s2 = s\<lparr>renderer := Some r1, timers := after_cancel s\<rparr>"
    using False by (simp add: after_cancel_def)
  show ?thesis
    using assms(1,2,3,4) False
    by (simp add: onresize_def Let_def scale_not_a_number [OF r assms(5)] e [symmetric])
qed

lemma onresize_deferred:
  assumes "autoScale (settings s)" and "renderer s = Some r"
    and "max_size s env = Inr (mw, mh)"
    and "scale_method_chain s mw mh r = (sx, sy, r1)"
  shows "\<exists>s'. onresize False env s = Inr s' \<and>
           sys_scale s' = sys_scale s \<and> renderer s' = Some r1 \<and>
           deferResizeId s' = int (next_timer s) \<and>
           timers s' = after_cancel s @
             [(next_timer s, CallScale (js_mul sx (devicePixelRatio env))
                                       (js_mul sy (devicePixelRatio env)))] \<and>
           next_timer s' = Suc (next_timer s)"
  using assms
  by (simp add: onresize_def Let_def defer_fn_def clearTimeout_def updateBounds_def notify_def
      after_cancel_def)

section \<open>The scale method \<open>fit\<close>\<close>

lemma fit_chain:
  assumes "scaleMethod (settings s) = ''fit''"
    and "designWidth s = Num dw" and "designHeight s = Num dh" and "0 < dw" and "0 < dh"
    and "0 < cw" and "0 < ch"
  shows "scale_method_chain s (Num cw) (Num ch) r =
          ((if js_lt (fl (cw / ch)) (designRatio s) then fl (cw / dw) else fl (ch / dh)),
           (if js_lt (fl (cw / ch)) (designRatio s) then fl (cw / dw) else fl (ch / dh)), r)"
  using assms by (simp add: scale_method_chain_def Let_def)


lemma fl_positive_times:
  assumes "0 < x" and "p \<noteq> 0"
  shows "js_mul (fl x) (Num p) \<noteq> NaN"
proof (cases "fl x")
  case (Num q)
  then show ?thesis by (simp add: fl_not_NaN)
next
  case PInf
  with assms(2) show ?thesis by (simp add: signed_inf_def)
next
  case NInf
  with assms(1) show ?thesis by (simp add: fl_def Let_def signed_inf_def split: if_splits)
next
  case NaN
  then show ?thesis by (simp add: fl_not_NaN)
qed

text \<open>
  Claim C2. With automatic scaling and the scale method \<open>fit\<close>, a design size
  \<open>dw\<close> by \<open>dh\<close> and a size \<open>cw\<close> by \<open>ch\<close> to fit into
  (\<^verbatim>\<open>_max_width\<close>, \<^verbatim>\<open>_max_height\<close>), all positive, and a pixel ratio \<open>p\<close>: the two
  factors are equal, and they are the quotient \<open>cw / dw\<close> times \<open>p\<close> when the screen
  ratio \<open>cw / ch\<close> is below the design ratio and \<open>ch / dh\<close> times \<open>p\<close> otherwise, each
  quotient and product rounded to a double. A call of \<open>onresize\<close> that is not forced
  schedules them, a forced one applies them (it returns when they are numbers, as they
  are for a pixel ratio other than zero), and neither resizes the canvas.
\<close>

theorem fit_scale_is_uniform:
  assumes "autoScale (settings s)" and "scaleMethod (settings s) = ''fit''"
    and "renderer s = Some r"
    and "max_size s env = Inr (Num cw, Num ch)" and "0 < cw" and "0 < ch"
    and "designWidth s = Num dw" and "designHeight s = Num dh" and "0 < dw" and "0 < dh"
    and "designRatio s = js_div (designWidth s) (designHeight s)"
    and "devicePixelRatio env = Num p"
    and "factor = js_mul (if js_lt (fl (cw / ch)) (fl (dw / dh)) then fl (cw / dw) else fl (ch / dh))
           (Num p)"
  shows "(\<exists>s2. onresize False env s = Inr s2 \<and>
            timers s2 = after_cancel s @ [(next_timer s, CallScale factor factor)] \<and>
            renderer s2 = Some r) \<and>
         (factor \<noteq> NaN \<longrightarrow>
            (\<exists>s1 r1. onresize True env s = Inr s1 \<and>
               fst (sys_scale s1) = snd (sys_scale s1) \<and> fst (sys_scale s1) = factor \<and>
               renderer s1 = Some r1 \<and> canvas_width r1 = canvas_width r \<and>
               canvas_height r1 = canvas_height r)) \<and>
         (p \<noteq> 0 \<longrightarrow> factor \<noteq> NaN)"
proof -
  let ?k = "if js_lt (fl (cw / ch)) (fl (dw / dh)) then fl (cw / dw) else fl (ch / dh)"
  have dr: "designRatio s = fl (dw / dh)"
    using assms(7,8,10,11) by simp
  have chain: "scale_method_chain s (Num cw) (Num ch) r = (?k, ?k, r)"
    using fit_chain [OF assms(2) assms(7) assms(8) assms(9) assms(10) assms(5) assms(6), of r]
    by (simp add: dr)
  have f: "js_mul ?k (devicePixelRatio env) = factor"
    by (simp add: assms(12) assms(13))
  from onresize_deferred [OF assms(1) assms(3) assms(4) chain]
  have d: "\<exists>s2. onresize False env s = Inr s2 \<and>
            timers s2 = after_cancel s @ [(next_timer s, CallScale factor factor)] \<and>
            renderer s2 = Some r"
    unfolding f by blast
  have t: "\<exists>s1 r1. onresize True env s = Inr s1 \<and>
               fst (sys_scale s1) = snd (sys_scale s1) \<and> fst (sys_scale s1) = factor \<and>
               renderer s1 = Some r1 \<and> canvas_width r1 = canvas_width r \<and>
               canvas_height r1 = canvas_height r" if "factor \<noteq> NaN"
  proof -
    from that have n: "js_mul ?k (devicePixelRatio env) \<noteq> NaN"
      unfolding f .
    from onresize_forced [OF assms(1) assms(3) assms(4) chain n n]
    show ?thesis unfolding f by auto
  qed
  have n: "factor \<noteq> NaN" if "p \<noteq> 0"
  proof -
    have "0 < cw / dw" "0 < ch / dh"
      using assms(5,6,9,10) by simp_all
    with that show ?thesis
      by (simp add: assms(13) fl_positive_times)
  qed
  from d t n show ?thesis by blast
qed


lemma fl_four_thirds: "fl (4 / 3) = Num (6004799503160661 / 4503599627370496)"
  by (subst fl_at [where e = 0]) (simp_all add: round_half_even_def Let_def)

lemma design_800x600_fields:
  "autoScale (settings (design_800x600 m))" "scaleMethod (settings (design_800x600 m)) = m"
  "renderer (design_800x600 m) = Some canvas_800x600"
  "designWidth (design_800x600 m) = Num 800" "designHeight (design_800x600 m) = Num 600"
  "designRatio (design_800x600 m) = js_div (designWidth (design_800x600 m))
     (designHeight (design_800x600 m))"
  "designRatio (design_800x600 m) = Num (6004799503160661 / 4503599627370496)"
  "maxWidth (design_800x600 m) = PInf" "maxHeight (design_800x600 m) = PInf"
  "sys_scale (design_800x600 m) = (Num 1, Num 1)"
  "timers (design_800x600 m) = []" "next_timer (design_800x600 m) = 1"
  "deferResizeId (design_800x600 m) = - 1"
  by (simp_all add: design_800x600_def initial_state_def default_settings_def fl_four_thirds)

lemma max_size_window:
  "max_size (design_800x600 m) (window w h) = Inr (Num (of_int \<lfloor>w\<rfloor>), Num (of_int \<lfloor>h\<rfloor>))"
  by (simp add: max_size_def parent_size_def design_800x600_def initial_state_def
      default_settings_def window_def js_min_PInf)

theorem fit_scale_is_uniform_witness:
  "\<exists>s1 s2. onresize True (window 1200 300) (design_800x600 ''fit'') = Inr s1 \<and>
     onresize False (window 1200 300) (design_800x600 ''fit'') = Inr s2 \<and>
     sys_scale s1 = (Num (1 / 2), Num (1 / 2)) \<and>
     timers s2 = [(1, CallScale (Num (1 / 2)) (Num (1 / 2)))] \<and>
     map_option canvas_width (renderer s1) = Some (Num 800) \<and>
     map_option canvas_height (renderer s1) = Some (Num 600)"
proof -
  let ?s = "design_800x600 ''fit''"
  note a = design_800x600_fields [of "''fit''"]
  have p: "devicePixelRatio (window 1200 300) = Num 1"
    by (simp add: window_def)
  have m: "max_size ?s (window 1200 300) = Inr (Num 1200, Num 300)"
    by (simp add: max_size_window)
  have t: "after_cancel ?s = []"
    by (simp add: after_cancel_def a)
  have f: "Num (1 / 2) = js_mul (if js_lt (fl (1200 / 300)) (fl (800 / 600))
      then fl (1200 / 800) else fl (300 / 600)) (Num 1)"
    by (simp add: fl_numeral fl_four_thirds fl_half)
  from fit_scale_is_uniform [OF a(1) a(2) a(3) m _ _ a(4) a(5) _ _ a(6) p f]
  obtain s1 s2 r1 where "onresize True (window 1200 300) ?s = Inr s1"
    "onresize False (window 1200 300) ?s = Inr s2"
    "fst (sys_scale s1) = snd (sys_scale s1)"
    "fst (sys_scale s1) = Num (1 / 2)"
    "timers s2 = after_cancel ?s @ [(next_timer ?s, CallScale (Num (1 / 2)) (Num (1 / 2)))]"
    "renderer s1 = Some r1" "canvas_width r1 = canvas_width canvas_800x600"
    "canvas_height r1 = canvas_height canvas_800x600"
    by fastforce
  then show ?thesis
    by (cases "sys_scale s1") (simp add: t a canvas_800x600_def)
qed


section \<open>The branch that resizes the width\<close>

lemma wrap_trunc_floor:
  assumes "0 \<le> a" and "a < 2 ^ 31"
  shows "wrap_int32 (trunc_real a) = \<lfloor>a\<rfloor>"
proof -
  have lo: "0 \<le> \<lfloor>a\<rfloor>"
    using assms(1) by simp
  have "\<lfloor>a\<rfloor> < 2 ^ 31"
    using assms(2) by (simp add: floor_less_iff)
  then have "wrap_int32 \<lfloor>a\<rfloor> = \<lfloor>a\<rfloor>"
    using lo by (simp add: wrap_int32_def Let_def)
  then show ?thesis
    using assms(1) by (simp add: trunc_real_def)
qed

lemma in_double_range:
  assumes "\<bar>x\<bar> < 2 ^ 53"
  shows "\<bar>x :: real\<bar> < 2 powi 1024"
proof -
  have "(2::real) ^ 53 \<le> 2 powi 1024"
    by (simp add: power_int_def power_increasing)
  with assms show ?thesis by (rule less_le_trans)
qed

lemma fl_int_half:
  assumes "\<bar>m\<bar> < 2 ^ 53"
  shows "fl (of_int m / 2) = Num (of_int m / 2)"
proof (rule fl_exact [where m = m and k = "- 1"])
  show "(of_int m / 2 :: real) = of_int m * 2 powi - 1"
    by (simp add: power_int_minus)
  show "\<bar>m\<bar> < 2 ^ 53" by (rule assms)
  show "- 1074 \<le> (- 1 :: int)" by simp
  have "\<bar>real_of_int m\<bar> < 2 ^ 53"
    using assms by (metis of_int_abs of_int_less_iff of_int_numeral of_int_power)
  moreover have "\<bar>real_of_int m / 2\<bar> \<le> \<bar>real_of_int m\<bar>" by simp
  ultimately have "\<bar>real_of_int m / 2\<bar> < 2 ^ 53" by (rule le_less_trans [rotated])
  then show "\<bar>real_of_int m / 2\<bar> < 2 powi 1024" by (rule in_double_range)
qed

lemma fl_numeral_half:
  assumes "numeral n < (2::int) ^ 53"
  shows "fl (numeral n / 2) = Num (numeral n / 2)"
  using fl_int_half [of "numeral n"] assms by simp

lemma fill_width_chain:
  assumes "(scaleMethod (settings s) = ''fill-min'' \<and> js_gt (fl (cw / ch)) (designRatio s)) \<or>
           (scaleMethod (settings s) = ''fill-max'' \<and> js_lt (fl (cw / ch)) (designRatio s)) \<or>
           scaleMethod (settings s) = ''flex-width''"
    and "ch \<noteq> 0" and "designHeight s = Num dh"
    and "sWidth = js_min (maxWidth s) (js_mul (Num dh) (fl (cw / ch)))"
  shows "scale_method_chain s (Num cw) (Num ch) r =
          (js_div (Num cw) sWidth, js_div (Num cw) sWidth,
           r\<lparr>canvas_width := to_int32 (js_add sWidth (Num (1 / 2))), canvas_height := Num dh\<rparr>)"
proof -
  have d: "js_div (Num cw) (Num ch) = fl (cw / ch)"
    using assms(2) by simp
  show ?thesis
    unfolding scale_method_chain_def Let_def d using assms(1)
    by (simp only: if_True) (simp add: assms(3) assms(4) resize_def)
qed

lemma surface_and_scale_forced:
  assumes "autoScale (settings s)" and "renderer s = Some r"
    and "max_size s env = Inr (mw, mh)"
    and "scale_method_chain s mw mh r = (sx, sy, r1)"
    and "js_mul sx (devicePixelRatio env) \<noteq> NaN" and "js_mul sy (devicePixelRatio env) \<noteq> NaN"
  shows "surface_and_scale (onresize True env s) =
           Some ((canvas_width r1, canvas_height r1),
                 (js_mul sx (devicePixelRatio env), js_mul sy (devicePixelRatio env)))"
proof -
  from onresize_forced [OF assms] obtain s' r'
    where "onresize True env s = Inr s'"
      and "sys_scale s' = (js_mul sx (devicePixelRatio env), js_mul sy (devicePixelRatio env))"
      and "renderer s' = Some r'"
      and "canvas_width r' = canvas_width r1" and "canvas_height r' = canvas_height r1"
    by blast
  then show ?thesis
    by (simp add: surface_and_scale_def)
qed

text \<open>
  Claim C1, as the code has it. With automatic scaling, the method \<open>fill-min\<close> and a
  screen ratio above the design ratio, or the method \<open>flex-width\<close>; a size \<open>cw\<close> by
  \<open>ch\<close> (\<^verbatim>\<open>_max_width\<close>, \<^verbatim>\<open>_max_height\<close>: the floor of the smaller of the maximum
  and the measured size) and a design height \<open>dh\<close>, all positive: with \<open>sWidth\<close> the
  smaller of \<open>maxWidth\<close> and \<open>dh\<close> times the screen ratio \<open>cw / ch\<close>, both factors are
  \<open>cw\<close> divided by \<open>sWidth\<close>, the width before it is rounded, and the canvas is resized to
  \<open>~~(sWidth + 0.5)\<close> by \<open>dh\<close>; every quotient, product and sum is rounded to a double.
  A forced \<open>onresize\<close> whose factors are numbers leaves the canvas with that size and
  \<open>sys_scale\<close> at the factors times the pixel ratio.
\<close>

theorem fill_width_resizes_to_screen_ratio:
  assumes "autoScale (settings s)" and "renderer s = Some r"
    and "max_size s env = Inr (Num cw, Num ch)" and "0 < cw" and "0 < ch"
    and "(scaleMethod (settings s) = ''fill-min'' \<and> js_gt (fl (cw / ch)) (designRatio s)) \<or>
         scaleMethod (settings s) = ''flex-width''"
    and "designHeight s = Num dh" and "0 < dh"
    and "sWidth = js_min (maxWidth s) (js_mul (Num dh) (fl (cw / ch)))"
    and "factor = js_div (Num cw) sWidth"
    and "devicePixelRatio env = Num p"
  shows "scale_method_chain s (Num cw) (Num ch) r =
           (factor, factor,
            r\<lparr>canvas_width := to_int32 (js_add sWidth (Num (1 / 2))), canvas_height := Num dh\<rparr>) \<and>
         (js_mul factor (Num p) \<noteq> NaN \<longrightarrow>
            surface_and_scale (onresize True env s) =
              Some ((to_int32 (js_add sWidth (Num (1 / 2))), Num dh),
                    (js_mul factor (Num p), js_mul factor (Num p))))"
proof -
  have c: "(scaleMethod (settings s) = ''fill-min'' \<and> js_gt (fl (cw / ch)) (designRatio s)) \<or>
           (scaleMethod (settings s) = ''fill-max'' \<and> js_lt (fl (cw / ch)) (designRatio s)) \<or>
           scaleMethod (settings s) = ''flex-width''"
    using assms(6) by blast
  have nz: "ch \<noteq> 0" using assms(5) by simp
  note chain = fill_width_chain [OF c nz assms(7) assms(9), where r = r, folded assms(10)]
  have "surface_and_scale (onresize True env s) =
              Some ((to_int32 (js_add sWidth (Num (1 / 2))), Num dh),
                    (js_mul factor (Num p), js_mul factor (Num p)))"
    if "js_mul factor (Num p) \<noteq> NaN"
  proof -
    from that have n: "js_mul factor (devicePixelRatio env) \<noteq> NaN"
      by (simp add: assms(11))
    from surface_and_scale_forced [OF assms(1) assms(2) assms(3) chain n n]
    show ?thesis by (simp add: assms(11))
  qed
  with chain show ?thesis by blast
qed


lemma fl_five_thirds: "fl (5 / 3) = Num (7505999378950827 / 4503599627370496)"
  by (subst fl_at [where e = 0]) (simp_all add: round_half_even_def Let_def)

lemma fl_600_times: "fl (562949953421312025 / 562949953421312) = Num 1000"
  by (subst fl_at [where e = 9]) (simp_all add: round_half_even_def Let_def)

lemma fl_599_240: "fl (599 / 240) = Num (5620117034989431 / 2251799813685248)"
  by (subst fl_at [where e = 1]) (simp_all add: round_half_even_def Let_def)

lemma fl_600_times': "fl (421508777624207325 / 281474976710656) =
    Num (6586074650378239 / 4398046511104)"
  by (subst fl_at [where e = 10]) (simp_all add: round_half_even_def Let_def)

lemma fl_plus_half: "fl (6588273673633791 / 4398046511104) =
    Num (6588273673633791 / 4398046511104)"
  by (subst fl_at [where e = 10]) (simp_all add: round_half_even_def Let_def)

lemma sWidth_1000_600:
  "js_min (maxWidth (design_800x600 m)) (js_mul (Num 600) (fl (1000 / 600))) = Num 1000"
  by (simp add: design_800x600_fields fl_five_thirds fl_600_times js_min_PInf)

lemma sWidth_599_240:
  "js_min (maxWidth (design_800x600 m)) (js_mul (Num 600) (fl (599 / 240))) =
     Num (6586074650378239 / 4398046511104)"
  by (simp add: design_800x600_fields fl_599_240 fl_600_times' js_min_PInf)

lemma width_1497: "to_int32 (js_add (Num (6586074650378239 / 4398046511104)) (Num (1 / 2))) = Num 1497"
  by (simp add: fl_plus_half trunc_real_def wrap_int32_def)

lemma width_1000: "to_int32 (js_add (Num 1000) (Num (1 / 2))) = Num 1000"
  by (simp add: fl_numeral_half trunc_real_def wrap_int32_def)


lemma fill_min_above:
  "js_gt (fl (1000 / 600)) (designRatio (design_800x600 m))"
  "js_gt (fl (599 / 240)) (designRatio (design_800x600 m))"
  "js_gt (fl (1200 / 300)) (designRatio (design_800x600 m))"
  by (simp_all add: js_gt_def design_800x600_fields(7) fl_five_thirds fl_599_240 fl_numeral)

theorem fill_width_resizes_to_screen_ratio_witness:
  "max_size (design_800x600 ''fill-min'') (window 1000 600) = Inr (Num 1000, Num 600) \<and>
   js_gt (fl (1000 / 600)) (designRatio (design_800x600 ''fill-min'')) \<and>
   surface_and_scale (onresize True (window 1000 600) (design_800x600 ''fill-min'')) =
     Some ((Num 1000, Num 600), (Num 1, Num 1)) \<and>
   max_size (design_800x600 ''fill-min'') (window 599 240) = Inr (Num 599, Num 240) \<and>
   scale_method_chain (design_800x600 ''fill-min'') (Num 599) (Num 240) canvas_800x600 =
     (js_div (Num 599) (Num (6586074650378239 / 4398046511104)),
      js_div (Num 599) (Num (6586074650378239 / 4398046511104)),
      canvas_800x600\<lparr>canvas_width := Num 1497, canvas_height := Num 600\<rparr>)"
proof -
  let ?s = "design_800x600 ''fill-min''"
  note a = design_800x600_fields [of "''fill-min''"]
  have p: "devicePixelRatio (window w h) = Num 1" for w h
    by (simp add: window_def)
  have m: "max_size ?s (window 1000 600) = Inr (Num 1000, Num 600)"
    "max_size ?s (window 599 240) = Inr (Num 599, Num 240)"
    by (simp_all add: max_size_window)
  have c: "(scaleMethod (settings ?s) = ''fill-min'' \<and> js_gt (fl (1000 / 600)) (designRatio ?s)) \<or>
         scaleMethod (settings ?s) = ''flex-width''"
    "(scaleMethod (settings ?s) = ''fill-min'' \<and> js_gt (fl (599 / 240)) (designRatio ?s)) \<or>
         scaleMethod (settings ?s) = ''flex-width''"
    using fill_min_above [of "''fill-min''"] by (simp_all add: a)
  have f: "Num 1 = js_div (Num 1000) (Num 1000)"
    by (simp add: fl_one)
  note big = fill_width_resizes_to_screen_ratio
    [OF a(1) a(3) m(1) _ _ c(1) a(5) _ sWidth_1000_600 [symmetric] f p]
  note tie = fill_width_resizes_to_screen_ratio
    [OF a(1) a(3) m(2) _ _ c(2) a(5) _ sWidth_599_240 [symmetric] refl p]
  from big have 1: "surface_and_scale (onresize True (window 1000 600) ?s) =
     Some ((Num 1000, Num 600), (Num 1, Num 1))"
    by (simp add: fl_numeral_half fl_one trunc_real_def wrap_int32_def)
  from tie have 2: "scale_method_chain ?s (Num 599) (Num 240) canvas_800x600 =
     (js_div (Num 599) (Num (6586074650378239 / 4398046511104)),
      js_div (Num 599) (Num (6586074650378239 / 4398046511104)),
      canvas_800x600\<lparr>canvas_width := Num 1497, canvas_height := Num 600\<rparr>)"
    unfolding width_1497 by simp
  from m fill_min_above(1) [of "''fill-min''"] 1 2 show ?thesis
    by blast
qed


text \<open>
  Where the specification's reading and the code part: a design of 800 by 600 with the
  method \<open>fill-min\<close> in a window of 1200 by 300 and no maximum size. The code resizes
  the canvas to 2400 by 600 and scales by one half; the reading gives 1200 by 600 and a
  scale of one.
\<close>

theorem fill_min_spec_counterexample:
  "js_gt (js_div (Num 1200) (Num 300)) (designRatio (design_800x600 ''fill-min'')) \<and>
   surface_and_scale (onresize True (window 1200 300) (design_800x600 ''fill-min'')) =
     Some ((Num 2400, Num 600), (Num (1 / 2), Num (1 / 2))) \<and>
   spec_fill_width (Num 600) PInf PInf (Num 1200) (Num 300) =
     ((Num 1200, Num 600), (Num 1, Num 1)) \<and>
   surface_and_scale (onresize True (window 1200 300) (design_800x600 ''fill-min'')) \<noteq>
     Some (spec_fill_width (designHeight (design_800x600 ''fill-min''))
       (maxWidth (design_800x600 ''fill-min'')) (maxHeight (design_800x600 ''fill-min''))
       (Num 1200) (Num 300))"
proof -
  let ?s = "design_800x600 ''fill-min''"
  note a = design_800x600_fields [of "''fill-min''"]
  have m: "max_size ?s (window 1200 300) = Inr (Num 1200, Num 300)"
    by (simp add: max_size_window)
  have g: "js_gt (js_div (Num 1200) (Num 300)) (designRatio ?s)"
    using fill_min_above(3) [of "''fill-min''"] by simp
  have c: "(scaleMethod (settings ?s) = ''fill-min'' \<and>
        js_gt (fl (1200 / 300)) (designRatio ?s)) \<or>
      (scaleMethod (settings ?s) = ''fill-max'' \<and> js_lt (fl (1200 / 300)) (designRatio ?s)) \<or>
      scaleMethod (settings ?s) = ''flex-width''"
    using fill_min_above(3) [of "''fill-min''"] by (simp add: a)
  have w: "Num 2400 = js_min (maxWidth ?s) (js_mul (Num 600) (fl (1200 / 300)))"
    by (simp add: a fl_numeral)
  have chain: "scale_method_chain ?s (Num 1200) (Num 300) canvas_800x600 =
      (Num (1 / 2), Num (1 / 2),
       canvas_800x600\<lparr>canvas_width := Num 2400, canvas_height := Num 600\<rparr>)"
    using fill_width_chain [OF c _ a(5) w, where r = canvas_800x600]
    by (simp add: fl_half fl_numeral_half trunc_real_def wrap_int32_def)
  have p: "devicePixelRatio (window 1200 300) = Num 1"
    by (simp add: window_def)
  have code: "surface_and_scale (onresize True (window 1200 300) ?s) =
      Some ((Num 2400, Num 600), (Num (1 / 2), Num (1 / 2)))"
    by (subst surface_and_scale_forced [OF a(1) a(3) m chain]) (simp_all add: p fl_half)
  have spec: "spec_fill_width (Num 600) PInf PInf (Num 1200) (Num 300) =
      ((Num 1200, Num 600), (Num 1, Num 1))"
    by (simp add: spec_fill_width_def round_half_up_def Let_def fl_numeral fl_numeral_half
        fl_one)
  from g code spec show ?thesis
    by (simp add: a)
qed


section \<open>A size that resolves to zero\<close>

lemma fl_zero: "fl 0 = Num 0"
  by (simp add: fl_def)

lemma fit_zero_chain:
  assumes "scaleMethod (settings s) = ''fit''"
    and "0 \<le> cw" and "0 \<le> ch" and "cw = 0 \<or> ch = 0"
    and "designWidth s = Num dw" and "0 < dw" and "designHeight s = Num dh" and "0 < dh"
    and "designRatio s = Num dr" and "0 < dr"
  shows "scale_method_chain s (Num cw) (Num ch) r = (Num 0, Num 0, r)"
proof (cases "ch = 0")
  case True
  then show ?thesis
    using assms
    by (cases "cw = 0") (simp_all add: scale_method_chain_def Let_def fl_zero signed_inf_def)
next
  case False
  with assms(4) have "cw = 0" by simp
  with False assms show ?thesis
    by (simp add: scale_method_chain_def Let_def fl_zero)
qed

lemma flex_width_zero_chain:
  assumes "scaleMethod (settings s) = ''flex-width''" and "0 < ch"
    and "designHeight s = Num dh" and "js_min (maxWidth s) (Num 0) = Num 0"
  shows "scale_method_chain s (Num 0) (Num ch) r =
           (NaN, NaN, r\<lparr>canvas_width := Num 0, canvas_height := Num dh\<rparr>)"
  using assms
  by (simp add: scale_method_chain_def Let_def fl_zero fl_half resize_def trunc_real_def
      wrap_int32_def)

text \<open>
  Claim C4, as the code has it. With automatic scaling, a renderer, a positive design
  size and a measured size (\<^verbatim>\<open>_max_width\<close>, \<^verbatim>\<open>_max_height\<close>) of which an axis is zero,
  there is no guard. Under the method \<open>fit\<close> the factor is zero and a forced
  \<open>onresize\<close> writes \<open>(0, 0)\<close> to \<open>sys_scale\<close> in place of the previous scale. Under
  the method \<open>flex-width\<close> with a width of zero (and a maximum width that is not
  negative) the factor is \<open>0 / 0\<close>, not a number: the canvas is resized to zero by the
  design height, the pending callback is cancelled, and the forced \<open>onresize\<close> raises
  to its caller, the previous scale staying in \<open>sys_scale\<close>.
\<close>

theorem zero_axis_is_not_guarded:
  assumes "autoScale (settings s)" and "renderer s = Some r"
    and "max_size s env = Inr (Num cw, Num ch)"
    and "0 \<le> cw" and "0 \<le> ch" and "cw = 0 \<or> ch = 0"
    and "designWidth s = Num dw" and "0 < dw" and "designHeight s = Num dh" and "0 < dh"
    and "designRatio s = Num dr" and "0 < dr"
    and "devicePixelRatio env = Num p"
  shows "(scaleMethod (settings s) = ''fit'' \<longrightarrow>
           (\<exists>s1. onresize True env s = Inr s1 \<and> sys_scale s1 = (Num 0, Num 0))) \<and>
         (scaleMethod (settings s) = ''flex-width'' \<and> cw = 0 \<and> 0 < ch \<and>
          js_min (maxWidth s) (Num 0) = Num 0 \<longrightarrow>
           onresize True env s =
             Inl (Error ''invalid x,y parameters (not a number)'',
                  s\<lparr>renderer := Some (r\<lparr>canvas_width := Num 0, canvas_height := Num dh\<rparr>),
                    timers := after_cancel s\<rparr>))"
proof (intro conjI impI)
  assume fit: "scaleMethod (settings s) = ''fit''"
  note chain = fit_zero_chain [OF fit assms(4) assms(5) assms(6) assms(7) assms(8) assms(9)
      assms(10) assms(11) assms(12), of r]
  have n: "js_mul (Num 0) (devicePixelRatio env) \<noteq> NaN"
    by (simp add: assms(13) fl_zero)
  from onresize_forced [OF assms(1) assms(2) assms(3) chain n n]
  show "\<exists>s1. onresize True env s = Inr s1 \<and> sys_scale s1 = (Num 0, Num 0)"
    by (auto simp add: assms(13) fl_zero)
next
  assume f: "scaleMethod (settings s) = ''flex-width'' \<and> cw = 0 \<and> 0 < ch \<and>
          js_min (maxWidth s) (Num 0) = Num 0"
  then have m: "max_size s env = Inr (Num 0, Num ch)"
    using assms(3) by simp
  from f have chain: "scale_method_chain s (Num 0) (Num ch) r =
           (NaN, NaN, r\<lparr>canvas_width := Num 0, canvas_height := Num dh\<rparr>)"
    by (intro flex_width_zero_chain) (simp_all add: assms(9))
  have n: "js_mul NaN (devicePixelRatio env) = NaN \<or> js_mul NaN (devicePixelRatio env) = NaN"
    by simp
  show "onresize True env s =
             Inl (Error ''invalid x,y parameters (not a number)'',
                  s\<lparr>renderer := Some (r\<lparr>canvas_width := Num 0, canvas_height := Num dh\<rparr>),
                    timers := after_cancel s\<rparr>)"
    by (rule onresize_forced_raises [OF assms(1) assms(2) m chain n])
qed


theorem zero_axis_is_not_guarded_witness:
  "max_size (design_800x600 ''fit'') (window 0 600) = Inr (Num 0, Num 600) \<and>
   (\<exists>s1. onresize True (window 0 600) (design_800x600 ''fit'') = Inr s1 \<and>
      sys_scale s1 = (Num 0, Num 0)) \<and>
   onresize True (window 0 600) (design_800x600 ''flex-width'') =
     Inl (Error ''invalid x,y parameters (not a number)'',
          design_800x600 ''flex-width''
            \<lparr>renderer := Some (canvas_800x600\<lparr>canvas_width := Num 0, canvas_height := Num 600\<rparr>),
              timers := []\<rparr>)"
proof -
  note a = design_800x600_fields [of "''fit''"]
  note b = design_800x600_fields [of "''flex-width''"]
  have p: "devicePixelRatio (window 0 600) = Num 1"
    by (simp add: window_def)
  have m: "max_size (design_800x600 m) (window 0 600) = Inr (Num 0, Num 600)" for m
    by (simp add: max_size_window)
  have c: "after_cancel (design_800x600 ''flex-width'') = []"
    by (simp add: after_cancel_def b)
  have w: "js_min (maxWidth (design_800x600 ''flex-width'')) (Num 0) = Num 0"
    by (simp add: b js_min_PInf)
  note fit = zero_axis_is_not_guarded [OF a(1) a(3) m _ _ _ a(4) _ a(5) _ a(7) _ p]
  note flex = zero_axis_is_not_guarded [OF b(1) b(3) m _ _ _ b(4) _ b(5) _ b(7) _ p]
  from fit have 1: "\<exists>s1. onresize True (window 0 600) (design_800x600 ''fit'') = Inr s1 \<and>
      sys_scale s1 = (Num 0, Num 0)"
    by (simp add: a)
  from flex w have 2: "onresize True (window 0 600) (design_800x600 ''flex-width'') =
     Inl (Error ''invalid x,y parameters (not a number)'',
          design_800x600 ''flex-width''
            \<lparr>renderer := Some (canvas_800x600\<lparr>canvas_width := Num 0, canvas_height := Num 600\<rparr>),
              timers := []\<rparr>)"
    by (simp add: b c)
  from m 1 2 show ?thesis by blast
qed

text \<open>
  A width that resolves to zero: a design of 800 by 600 in a window 0 wide and 600 high,
  the scale being \<open>(1, 1)\<close>. With the method \<open>fit\<close> a forced \<open>onresize\<close> returns and
  the scale is \<open>(0, 0)\<close>, not the previous one. With the method \<open>flex-width\<close> it raises
  to its caller, after the canvas was resized to 0 by 600.
\<close>

theorem zero_axis_counterexample:
  "max_size (design_800x600 ''fit'') (window 0 600) = Inr (Num 0, Num 600) \<and>
   sys_scale (design_800x600 ''fit'') = (Num 1, Num 1) \<and>
   surface_and_scale (onresize True (window 0 600) (design_800x600 ''fit'')) =
     Some ((Num 800, Num 600), (Num 0, Num 0)) \<and>
   onresize True (window 0 600) (design_800x600 ''flex-width'') =
     Inl (Error ''invalid x,y parameters (not a number)'',
          design_800x600 ''flex-width''
            \<lparr>renderer := Some (canvas_800x600\<lparr>canvas_width := Num 0, canvas_height := Num 600\<rparr>),
              timers := []\<rparr>)"
proof -
  note a = design_800x600_fields [of "''fit''"]
  note b = design_800x600_fields [of "''flex-width''"]
  have p: "devicePixelRatio (window 0 600) = Num 1"
    by (simp add: window_def)
  have m: "max_size (design_800x600 m) (window 0 600) = Inr (Num 0, Num 600)" for m
    by (simp add: max_size_window)
  have fit: "scale_method_chain (design_800x600 ''fit'') (Num 0) (Num 600) canvas_800x600 =
      (Num 0, Num 0, canvas_800x600)"
    by (rule fit_zero_chain [OF a(2) _ _ _ a(4) _ a(5) _ a(7)]) simp_all
  have n: "js_mul (Num 0) (devicePixelRatio (window 0 600)) \<noteq> NaN"
    by (simp add: p fl_zero)
  have 1: "surface_and_scale (onresize True (window 0 600) (design_800x600 ''fit'')) =
     Some ((Num 800, Num 600), (Num 0, Num 0))"
    by (subst surface_and_scale_forced [OF a(1) a(3) m fit n n])
      (simp add: p fl_zero canvas_800x600_def)
  have flex: "scale_method_chain (design_800x600 ''flex-width'') (Num 0) (Num 600) canvas_800x600 =
      (NaN, NaN, canvas_800x600\<lparr>canvas_width := Num 0, canvas_height := Num 600\<rparr>)"
    by (rule flex_width_zero_chain [OF b(2) _ b(5)]) (simp_all add: b js_min_PInf)
  have c: "after_cancel (design_800x600 ''flex-width'') = []"
    by (simp add: after_cancel_def b)
  have 2: "onresize True (window 0 600) (design_800x600 ''flex-width'') =
     Inl (Error ''invalid x,y parameters (not a number)'',
          design_800x600 ''flex-width''
            \<lparr>renderer := Some (canvas_800x600\<lparr>canvas_width := Num 0, canvas_height := Num 600\<rparr>),
              timers := []\<rparr>)"
    by (subst onresize_forced_raises [OF b(1) b(3) m flex]) (simp_all add: c)
  from m a(10) 1 2 show ?thesis by blast
qed


section \<open>At most one deferred resize\<close>

lemma set_pending_scales:
  "set (pending_scales ts) = {(i, x, y). (i, CallScale x y) \<in> set ts}"
  by (induction ts rule: pending_scales.induct) auto

lemma pending_scales_append:
  "pending_scales (ts @ us) = pending_scales ts @ pending_scales us"
  by (induction ts rule: pending_scales.induct) auto

lemma pending_scales_none:
  assumes "\<And>i x y. (i, CallScale x y) \<notin> set ts"
  shows "pending_scales ts = []"
proof -
  have "set (pending_scales ts) = {}"
    using assms by (auto simp add: set_pending_scales)
  then show ?thesis by simp
qed

lemma pending_scales_same_token:
  assumes "distinct (map fst ts)"
    and "\<And>i x y. (i, CallScale x y) \<in> set ts \<Longrightarrow> i = k"
  shows "length (pending_scales ts) \<le> 1"
  using assms
proof (induction ts rule: pending_scales.induct)
  case 1
  show ?case by simp
next
  case (2 i x y ts)
  have "pending_scales ts = []"
  proof (rule pending_scales_none)
    fix j u v
    show "(j, CallScale u v) \<notin> set ts"
    proof
      assume in_ts: "(j, CallScale u v) \<in> set ts"
      then have "j = k" using "2.prems"(2) [of j u v] by simp
      moreover have "i = k" using "2.prems"(2) [of i x y] by simp
      moreover have "i \<notin> fst ` set ts" using "2.prems"(1) by simp
      ultimately show False using in_ts by force
    qed
  qed
  then show ?case by simp
next
  case (3 i ts)
  then show ?case by simp
qed

lemma coherentD:
  assumes "coherent s" and "(i, cb) \<in> set (timers s)"
  shows "0 < i" and "i < next_timer s"
    and "\<And>x y. cb = CallScale x y \<Longrightarrow> int i = deferResizeId s"
    and "cb = CallOnresize \<Longrightarrow> int i \<noteq> deferResizeId s"
  using assms by (auto simp add: coherent_def list_all_iff tracked_def)

lemma coherent_token: "coherent s \<Longrightarrow> deferResizeId s < int (next_timer s)"
  by (simp add: coherent_def)

lemma coherent_at_most_one:
  assumes "coherent s"
  shows "length (pending_scales (timers s)) \<le> 1"
proof (cases "0 < deferResizeId s")
  case True
  show ?thesis
  proof (rule pending_scales_same_token [where k = "nat (deferResizeId s)"])
    show "distinct (map fst (timers s))"
      using assms by (simp add: coherent_def)
  next
    fix i x y
    assume "(i, CallScale x y) \<in> set (timers s)"
    from coherentD(3) [OF assms this] show "i = nat (deferResizeId s)"
      by simp
  qed
next
  case False
  have "pending_scales (timers s) = []"
  proof (rule pending_scales_none)
    fix i x y
    show "(i, CallScale x y) \<notin> set (timers s)"
    proof
      assume t: "(i, CallScale x y) \<in> set (timers s)"
      from coherentD(1) [OF assms t] coherentD(3) [OF assms t] False
      show False by simp
    qed
  qed
  then show ?thesis by simp
qed

lemma after_cancel_subset: "set (after_cancel s) \<subseteq> set (timers s)"
  by (auto simp add: after_cancel_def)

lemma after_cancel_distinct:
  "distinct (map fst (timers s)) \<Longrightarrow> distinct (map fst (after_cancel s))"
  by (simp add: after_cancel_def distinct_map_filter)

lemma after_cancel_no_scale:
  assumes "coherent s"
  shows "(i, CallScale x y) \<notin> set (after_cancel s)"
proof
  assume t: "(i, CallScale x y) \<in> set (after_cancel s)"
  then have m: "(i, CallScale x y) \<in> set (timers s)"
    using after_cancel_subset by blast
  note pos = coherentD(1) [OF assms m] and eq = coherentD(3) [OF assms m refl]
  from t pos eq show False
    by (auto simp add: after_cancel_def split: if_splits)
qed

lemma pending_scales_after_cancel:
  "coherent s \<Longrightarrow> pending_scales (after_cancel s) = []"
  by (rule pending_scales_none) (rule after_cancel_no_scale)

lemma pending_onresizes_append:
  "pending_onresizes (ts @ us) = pending_onresizes ts @ pending_onresizes us"
  by (induction ts rule: pending_onresizes.induct) simp_all

lemma pending_onresizes_filter:
  assumes "\<And>i. (i, CallOnresize) \<in> set ts \<Longrightarrow> P (i, CallOnresize)"
  shows "pending_onresizes (filter P ts) = pending_onresizes ts"
  using assms by (induction ts rule: pending_onresizes.induct) simp_all

lemma pending_onresizes_after_cancel:
  assumes "coherent s"
  shows "pending_onresizes (after_cancel s) = pending_onresizes (timers s)"
proof (cases "0 < deferResizeId s")
  case True
  have "pending_onresizes (filter (\<lambda>(j, c). int j \<noteq> deferResizeId s) (timers s)) =
      pending_onresizes (timers s)"
  proof (rule pending_onresizes_filter)
    fix i
    assume "(i, CallOnresize) \<in> set (timers s)"
    from coherentD(4) [OF assms this refl]
    show "case (i, CallOnresize) of (j, c) \<Rightarrow> int j \<noteq> deferResizeId s"
      by simp
  qed
  with True show ?thesis by (simp add: after_cancel_def)
next
  case False
  then show ?thesis by (simp add: after_cancel_def)
qed

lemma pending_onresizes_setMaxSize:
  "pending_onresizes (timers (setMaxSize w h s)) = pending_onresizes (timers s) @ [next_timer s]"
  by (simp add: setMaxSize_def defer_fn_def pending_onresizes_append)

lemma coherent_frame:
  assumes "coherent s" and "timers s' = timers s" and "next_timer s' = next_timer s"
    and "deferResizeId s' = deferResizeId s"
  shows "coherent s'"
  using assms by (simp add: coherent_def tracked_def list_all_iff)

lemma coherent_cancelled:
  assumes "coherent s" and "timers s' = after_cancel s" and "next_timer s' = next_timer s"
    and "deferResizeId s' = deferResizeId s \<or> deferResizeId s' = - 1"
  shows "coherent s'"
proof -
  have "tracked s' t" if "t \<in> set (after_cancel s)" for t
  proof -
    obtain i cb where t: "t = (i, cb)" by (cases t)
    from that t have m: "(i, cb) \<in> set (timers s)"
      using after_cancel_subset by blast
    from that t after_cancel_no_scale [OF assms(1)] have cb: "cb = CallOnresize"
      by (cases cb) auto
    have "int i \<noteq> deferResizeId s'"
      using assms(4) coherentD(1) [OF assms(1) m] coherentD(4) [OF assms(1) m cb] by auto
    with coherentD(1,2) [OF assms(1) m] show ?thesis
      by (simp add: tracked_def t assms(3) cb)
  qed
  moreover have "distinct (map fst (after_cancel s))"
    using assms(1) by (simp add: coherent_def after_cancel_distinct)
  moreover have "deferResizeId s' < int (next_timer s')"
    using assms(4) coherent_token [OF assms(1)] by (auto simp add: assms(3))
  ultimately show ?thesis
    using assms(1) by (simp add: coherent_def list_all_iff assms(2) assms(3))
qed

lemma coherent_scheduled:
  assumes "coherent s" and "timers s' = timers s @ [(next_timer s, cb)]"
    and "next_timer s' = Suc (next_timer s)"
    and "deferResizeId s' = deferResizeId s \<or>
         (pending_scales (timers s) = [] \<and> deferResizeId s' = int (next_timer s))"
    and "is_scale cb \<longleftrightarrow> deferResizeId s' = int (next_timer s)"
  shows "coherent s'"
proof -
  have fresh: "next_timer s \<notin> fst ` set (timers s)"
    using coherentD(2) [OF assms(1)] by force
  have old: "tracked s' t" if "t \<in> set (timers s)" for t
  proof -
    obtain i c where t: "t = (i, c)" by (cases t)
    note d = coherentD [OF assms(1) that [unfolded t]]
    show ?thesis
    proof (cases c)
      case CallOnresize
      have "int i \<noteq> deferResizeId s'"
        using assms(4) d(2) d(4) [OF CallOnresize] by auto
      with d(1,2) CallOnresize show ?thesis by (simp add: tracked_def t assms(3))
    next
      case (CallScale x y)
      with that t have "(i, x, y) \<in> set (pending_scales (timers s))"
        by (simp add: set_pending_scales)
      then have "pending_scales (timers s) \<noteq> []" by auto
      with assms(4) have "deferResizeId s' = deferResizeId s" by blast
      with d(1,2) d(3) [OF CallScale] CallScale show ?thesis
        by (simp add: tracked_def t assms(3))
    qed
  qed
  have pos: "0 < next_timer s"
    using assms(1) by (simp add: coherent_def)
  have new: "tracked s' (next_timer s, cb)"
    using pos assms(5) by (cases cb) (auto simp add: tracked_def assms(3))
  have tok: "deferResizeId s' < int (next_timer s')"
    using assms(4) coherent_token [OF assms(1)] by (auto simp add: assms(3))
  from old new fresh tok assms(1) show ?thesis
    by (simp add: coherent_def list_all_iff assms(2) assms(3))
qed

lemma coherent_initial: "coherent initial_state"
  by (simp add: coherent_def initial_state_def)

lemma coherent_setMaxSize:
  assumes "coherent s"
  shows "coherent (setMaxSize w h s)"
proof (rule coherent_scheduled [OF assms, where cb = CallOnresize])
  show "is_scale CallOnresize \<longleftrightarrow>
      deferResizeId (setMaxSize w h s) = int (next_timer s)"
    using coherent_token [OF assms] by (simp add: setMaxSize_def defer_fn_def)
qed (simp_all add: setMaxSize_def defer_fn_def)

lemma onresize_shape:
  "(timers (left_by (onresize force env s)) = timers s \<and>
      deferResizeId (left_by (onresize force env s)) = deferResizeId s \<and>
      next_timer (left_by (onresize force env s)) = next_timer s) \<or>
   (timers (left_by (onresize force env s)) = after_cancel s \<and>
      next_timer (left_by (onresize force env s)) = next_timer s \<and>
      (deferResizeId (left_by (onresize force env s)) = deferResizeId s \<or>
       deferResizeId (left_by (onresize force env s)) = - 1)) \<or>
   (\<exists>x y. timers (left_by (onresize force env s)) =
        after_cancel s @ [(next_timer s, CallScale x y)] \<and>
      deferResizeId (left_by (onresize force env s)) = int (next_timer s) \<and>
      next_timer (left_by (onresize force env s)) = Suc (next_timer s))"
proof (cases "renderer s")
  case None
  then show ?thesis by (simp add: onresize_def left_by_def)
next
  case (Some r)
  show ?thesis
  proof (cases "autoScale (settings s)")
    case False
    with Some show ?thesis
      by (simp add: onresize_def left_by_def updateBounds_def notify_def)
  next
    case True
    show ?thesis
    proof (cases "max_size s env")
      case (Inl e)
      with Some True show ?thesis by (simp add: onresize_def left_by_def)
    next
      case (Inr m)
      obtain mw mh where m: "max_size s env = Inr (mw, mh)"
        using Inr by (cases m) simp
      obtain sx sy r1 where c: "scale_method_chain s mw mh r = (sx, sy, r1)"
        by (cases "scale_method_chain s mw mh r") blast
      show ?thesis
      proof (cases force)
        case False
        with onresize_deferred [OF True Some m c] show ?thesis
          by (auto simp add: left_by_def)
      next
        case forced: True
        show ?thesis
        proof (cases "js_mul sx (devicePixelRatio env) = NaN \<or> js_mul sy (devicePixelRatio env) = NaN")
          case True
          from onresize_forced_raises [OF \<open>autoScale (settings s)\<close> Some m c True] forced
          show ?thesis by (simp add: left_by_def)
        next
          case False
          then have n: "js_mul sx (devicePixelRatio env) \<noteq> NaN"
            "js_mul sy (devicePixelRatio env) \<noteq> NaN" by simp_all
          from onresize_forced [OF \<open>autoScale (settings s)\<close> Some m c n] forced
          show ?thesis by (auto simp add: left_by_def)
        qed
      qed
    qed
  qed
qed

lemma coherent_onresize:
  assumes "coherent s"
  shows "coherent (left_by (onresize force env s))"
proof -
  let ?s' = "left_by (onresize force env s)"
  from onresize_shape [of force env s] consider
    (same) "timers ?s' = timers s" "deferResizeId ?s' = deferResizeId s"
      "next_timer ?s' = next_timer s"
    | (forced) "timers ?s' = after_cancel s" "next_timer ?s' = next_timer s"
      "deferResizeId ?s' = deferResizeId s \<or> deferResizeId ?s' = - 1"
    | (deferred) x y where "timers ?s' = after_cancel s @ [(next_timer s, CallScale x y)]"
      "deferResizeId ?s' = int (next_timer s)" "next_timer ?s' = Suc (next_timer s)"
    by blast
  then show ?thesis
  proof cases
    case same
    show ?thesis by (rule coherent_frame [OF assms same(1) same(3) same(2)])
  next
    case forced
    show ?thesis by (rule coherent_cancelled [OF assms forced])
  next
    case deferred
    let ?c = "s\<lparr>timers := after_cancel s\<rparr>"
    have c: "coherent ?c"
      by (rule coherent_cancelled [OF assms]) simp_all
    show ?thesis
      by (rule coherent_scheduled [OF c, where cb = "CallScale x y"])
        (simp_all add: deferred pending_scales_after_cancel [OF assms])
  qed
qed


lemma coherent_scale:
  assumes "coherent s" and "pending_scales (timers s) = []" and "scale x y env s = Inr s'"
  shows "coherent s'"
proof -
  from assms(3) obtain r where r: "renderer s = Some r" and n: "x \<noteq> NaN" "y \<noteq> NaN"
    by (rule scale_returns)
  from assms(3) have f: "timers s' = timers s" "next_timer s' = next_timer s"
    "deferResizeId s' = - 1"
    by (auto simp add: scale_result [OF r n])
  have "\<not> is_scale (snd t)" if "t \<in> set (timers s)" for t
  proof
    assume "is_scale (snd t)"
    then obtain i u v where "t = (i, CallScale u v)"
      by (cases t, cases "snd t") auto
    with that have "(i, u, v) \<in> set (pending_scales (timers s))"
      by (simp add: set_pending_scales)
    with assms(2) show False by simp
  qed
  with assms(1) show ?thesis
    by (auto simp add: coherent_def list_all_iff tracked_def f)
qed

lemma coherent_fire:
  assumes "coherent s"
  shows "coherent (fire token env s)"
proof (cases "map_of (timers s) token")
  case None
  with assms show ?thesis by (simp add: fire_def)
next
  case (Some cb)
  let ?s0 = "s\<lparr>timers := filter (\<lambda>(j, c). j \<noteq> token) (timers s)\<rparr>"
  have s0: "coherent ?s0"
    using assms by (auto simp add: coherent_def list_all_iff tracked_def distinct_map_filter)
  show ?thesis
  proof (cases cb)
    case CallOnresize
    from coherent_onresize [OF s0, of False env] Some CallOnresize show ?thesis
      by (simp add: fire_def run_callback_def)
  next
    case (CallScale x y)
    from Some CallScale have m: "(token, CallScale x y) \<in> set (timers s)"
      by (simp add: map_of_SomeD)
    have none: "pending_scales (timers ?s0) = []"
    proof (rule pending_scales_none)
      fix i u v
      show "(i, CallScale u v) \<notin> set (timers ?s0)"
      proof
        assume "(i, CallScale u v) \<in> set (timers ?s0)"
        then have i: "(i, CallScale u v) \<in> set (timers s)" and ne: "i \<noteq> token"
          by simp_all
        from coherentD(3) [OF assms i refl] coherentD(3) [OF assms m refl] ne
        show False by simp
      qed
    qed
    show ?thesis
    proof (cases "scale x y env ?s0")
      case (Inl e)
      with s0 Some CallScale show ?thesis by (simp add: fire_def run_callback_def)
    next
      case (Inr s')
      from coherent_scale [OF s0 none Inr] Some CallScale Inr show ?thesis
        by (simp add: fire_def run_callback_def)
    qed
  qed
qed

lemma coherent_init:
  assumes "coherent s"
  shows "coherent (snd (init w h opts b s))"
proof (cases "me_initialized b")
  case False
  with assms show ?thesis by (simp add: init_def)
next
  case True
  let ?s1 = "configure w h opts b s"
  have s1: "coherent ?s1"
    by (rule coherent_frame [OF assms]) (simp_all add: configure_def Let_def)
  show ?thesis
  proof (cases "fst (select_renderer (boot_device b) (settings ?s1))")
    case (Inl e)
    with True s1 show ?thesis by (simp add: init_def)
  next
    case (Inr r)
    define r1 where "r1 = (if js_gt (devicePixelRatio (boot_host b)) (Num 1)
        then r\<lparr>style_width := Some (Px (js_div (canvas_width r) (devicePixelRatio (boot_host b)))),
               style_height := Some (Px (js_div (canvas_height r) (devicePixelRatio (boot_host b))))\<rparr>
        else r)"
    define s3 where "s3 = (if has_getComputedStyle b
        then setMaxSize (css_maxWidth b) (css_maxHeight b) (?s1\<lparr>renderer := Some r1\<rparr>)
        else ?s1\<lparr>renderer := Some r1\<rparr>)"
    have s2: "coherent (?s1\<lparr>renderer := Some r1\<rparr>)"
      by (rule coherent_frame [OF s1]) simp_all
    then have c3: "coherent s3"
      by (simp add: s3_def coherent_setMaxSize)
    have i: "init w h opts b s =
        (case onresize True (boot_host b) s3 of
           Inl (e, s4) \<Rightarrow> (Inl e, s4)
         | Inr s4 \<Rightarrow> (Inr True, notify VideoInit s4))"
      using True Inr by (simp add: init_def Let_def s3_def r1_def split: sum.splits prod.splits)
    note c4 = coherent_onresize [OF c3, of True "boot_host b"]
    show ?thesis
    proof (cases "onresize True (boot_host b) s3")
      case (Inl p)
      with i c4 show ?thesis by (cases p) (simp add: left_by_def)
    next
      case (Inr s4)
      with c4 have "coherent s4" by (simp add: left_by_def)
      then have "coherent (notify VideoInit s4)"
        by (rule coherent_frame) (simp_all add: notify_def)
      with i Inr show ?thesis by simp
    qed
  qed
qed



lemma after_cancel_tokens:
  assumes "coherent s" and "(i, cb) \<in> set (after_cancel s)"
  shows "i < next_timer s"
  using coherentD(2) [OF assms(1)] assms(2) after_cancel_subset by blast

lemma onresize_returns:
  assumes "autoScale (settings s)" and "onresize force env s = Inr s'"
  obtains r mw mh where "renderer s = Some r" and "max_size s env = Inr (mw, mh)"
proof -
  from assms obtain r where r: "renderer s = Some r"
    by (cases "renderer s") (simp_all add: onresize_def)
  from assms r obtain m where "max_size s env = Inr m"
    by (cases "max_size s env") (auto simp add: onresize_def)
  then obtain mw mh where "max_size s env = Inr (mw, mh)"
    by (cases m) simp
  with r that show thesis by blast
qed

lemma deferred_step:
  assumes "autoScale (settings s)" and "onresize False env s = Inr s'"
  obtains r mw mh sx sy r' where "renderer s = Some r" and "max_size s env = Inr (mw, mh)"
    and "scale_method_chain s mw mh r = (sx, sy, r')"
    and "timers s' = after_cancel s @
      [(next_timer s, CallScale (js_mul sx (devicePixelRatio env)) (js_mul sy (devicePixelRatio env)))]"
    and "deferResizeId s' = int (next_timer s)" and "next_timer s' = Suc (next_timer s)"
    and "renderer s' = Some r'"
proof -
  from onresize_returns [OF assms] obtain r mw mh
    where r: "renderer s = Some r" and m: "max_size s env = Inr (mw, mh)"
    by blast
  obtain sx sy r1 where c: "scale_method_chain s mw mh r = (sx, sy, r1)"
    by (cases "scale_method_chain s mw mh r") blast
  from onresize_deferred [OF assms(1) r m c] assms(2)
  have "timers s' = after_cancel s @
      [(next_timer s, CallScale (js_mul sx (devicePixelRatio env)) (js_mul sy (devicePixelRatio env)))]"
    and "deferResizeId s' = int (next_timer s)" and "next_timer s' = Suc (next_timer s)"
    and "renderer s' = Some r1"
    by auto
  with r m c that show thesis
    by blast
qed

lemma fire_scheduled:
  assumes "coherent s" and "timers s' = after_cancel s @ [(next_timer s, CallScale x y)]"
    and "renderer s' = Some r'"
  shows "pending_scales (timers (fire (next_timer s) env s')) = []"
    and "x \<noteq> NaN \<Longrightarrow> y \<noteq> NaN \<Longrightarrow> sys_scale (fire (next_timer s) env s') = (x, y)"
    and "x \<noteq> NaN \<Longrightarrow> y \<noteq> NaN \<Longrightarrow>
           sent (fire (next_timer s) env s') = sent s' @ [UpdateBounds, Repaint]"
    and "x = NaN \<or> y = NaN \<Longrightarrow> fire (next_timer s) env s' = s'\<lparr>timers := after_cancel s\<rparr>"
    and "timers (fire (next_timer s) env s') = after_cancel s"
proof -
  have fresh: "next_timer s \<notin> fst ` set (after_cancel s)"
    using after_cancel_tokens [OF assms(1)] by force
  then have look: "map_of (timers s') (next_timer s) = Some (CallScale x y)"
    by (simp add: assms(2) map_add_Some_iff map_of_eq_None_iff)
  have rest: "filter (\<lambda>(j, c). j \<noteq> next_timer s) (timers s') = after_cancel s"
    using fresh by (force simp add: assms(2) filter_id_conv)
  let ?s0 = "s'\<lparr>timers := after_cancel s\<rparr>"
  have r0: "renderer ?s0 = Some r'"
    by (simp add: assms(3))
  have f: "fire (next_timer s) env s' = (case scale x y env ?s0 of Inl e \<Rightarrow> ?s0 | Inr t \<Rightarrow> t)"
    by (simp add: fire_def look rest run_callback_def)
  show "x = NaN \<or> y = NaN \<Longrightarrow> fire (next_timer s) env s' = ?s0"
    by (simp add: f scale_not_a_number [OF r0])
  show "x \<noteq> NaN \<Longrightarrow> y \<noteq> NaN \<Longrightarrow> sys_scale (fire (next_timer s) env s') = (x, y)"
    by (simp add: f scale_result [OF r0])
  show "x \<noteq> NaN \<Longrightarrow> y \<noteq> NaN \<Longrightarrow>
           sent (fire (next_timer s) env s') = sent s' @ [UpdateBounds, Repaint]"
    by (simp add: f scale_result [OF r0])
  show t: "timers (fire (next_timer s) env s') = after_cancel s"
  proof (cases "x = NaN \<or> y = NaN")
    case True
    then show ?thesis
      by (simp add: f scale_not_a_number [OF r0])
  next
    case False
    then show ?thesis
      by (simp add: f scale_result [OF r0])
  qed
  show "pending_scales (timers (fire (next_timer s) env s')) = []"
    by (simp add: t pending_scales_after_cancel [OF assms(1)])
qed


text \<open>
  Claim C3, as the code has it. Take a state whose bookkeeping is coherent: every
  pending deferred \<open>scale\<close> is the one \<open>deferResizeId\<close> names. Then at most one
  deferred \<open>scale\<close> is pending. The state at load time is coherent, and \<open>init\<close>,
  \<open>setMaxSize\<close>, \<open>onresize\<close> (forced or not, returning or raising), the firing of a
  pending callback, and a call of \<open>scale\<close> by the application while no deferred
  \<open>scale\<close> is pending all keep it so. With automatic scaling, when \<open>onresize\<close> is
  called not forced and then, before the scheduled \<open>scale\<close> has fired, called not
  forced again: after the first call the pending \<open>scale\<close> is the one just scheduled;
  after the second it is the one the second call scheduled, alone, with the factors the
  second call computed, and the token of the first is no longer pending, so firing it
  does nothing. When the pending callback fires, no deferred \<open>scale\<close> is left; if its
  factors are numbers, \<open>scale\<close> runs once and writes them to \<open>sys_scale\<close>; if one is
  \<open>NaN\<close>, \<open>scale\<close> raises and nothing is written. The deferred calls of \<open>onresize\<close>
  that \<open>setMaxSize\<close> schedules are not bounded: each call of \<open>setMaxSize\<close> adds one to
  those pending, and the two calls of \<open>onresize\<close> and the firing of the deferred
  \<open>scale\<close> leave them as they are.
\<close>

theorem last_deferred_scale_wins:
  assumes "coherent s" and "autoScale (settings s)"
    and "onresize False env1 s = Inr s1" and "onresize False env2 s1 = Inr s2"
  shows "length (pending_scales (timers s)) \<le> 1 \<and>
         coherent initial_state \<and>
         coherent (snd (init gw gh opts b s)) \<and>
         coherent (setMaxSize w h s) \<and>
         pending_onresizes (timers (setMaxSize w h s)) =
           pending_onresizes (timers s) @ [next_timer s] \<and>
         coherent (left_by (onresize force env3 s)) \<and>
         coherent (fire token env3 s) \<and>
         (pending_scales (timers s) = [] \<longrightarrow>
            (case scale x y env3 s of Inl e \<Rightarrow> True | Inr s' \<Rightarrow> coherent s')) \<and>
         (\<exists>x1 y1 x2 y2 r mw mh sx sy r'.
            pending_scales (timers s1) = [(next_timer s, x1, y1)] \<and>
            pending_scales (timers s2) = [(next_timer s1, x2, y2)] \<and>
            next_timer s1 \<noteq> next_timer s \<and>
            map_of (timers s2) (next_timer s) = None \<and>
            fire (next_timer s) env3 s2 = s2 \<and>
            renderer s1 = Some r \<and> max_size s1 env2 = Inr (mw, mh) \<and>
            scale_method_chain s1 mw mh r = (sx, sy, r') \<and>
            x2 = js_mul sx (devicePixelRatio env2) \<and> y2 = js_mul sy (devicePixelRatio env2) \<and>
            pending_scales (timers (fire (next_timer s1) env3 s2)) = [] \<and>
            pending_onresizes (timers s1) = pending_onresizes (timers s) \<and>
            pending_onresizes (timers s2) = pending_onresizes (timers s) \<and>
            pending_onresizes (timers (fire (next_timer s1) env3 s2)) =
              pending_onresizes (timers s) \<and>
            (x2 \<noteq> NaN \<and> y2 \<noteq> NaN \<longrightarrow>
               sys_scale (fire (next_timer s1) env3 s2) = (x2, y2) \<and>
               sent (fire (next_timer s1) env3 s2) = sent s2 @ [UpdateBounds, Repaint]) \<and>
            (x2 = NaN \<or> y2 = NaN \<longrightarrow>
               fire (next_timer s1) env3 s2 = s2\<lparr>timers := after_cancel s1\<rparr>))"
proof -
  note c = assms(1)
  have c1: "coherent s1"
    using coherent_onresize [OF c, of False env1] assms(3) by (simp add: left_by_def)
  have a1: "autoScale (settings s1)"
    using onresize_settings [of False env1 s] assms(2,3) by (simp add: left_by_def)
  from deferred_step [OF assms(2) assms(3)] obtain x1 y1
    where t1: "timers s1 = after_cancel s @ [(next_timer s, CallScale x1 y1)]"
      and d1: "deferResizeId s1 = int (next_timer s)"
      and n1: "next_timer s1 = Suc (next_timer s)"
    by metis
  from deferred_step [OF a1 assms(4)] obtain r mw mh sx sy r2
    where r: "renderer s1 = Some r" and m: "max_size s1 env2 = Inr (mw, mh)"
      and ch: "scale_method_chain s1 mw mh r = (sx, sy, r2)"
      and t2: "timers s2 = after_cancel s1 @
        [(next_timer s1, CallScale (js_mul sx (devicePixelRatio env2))
                                   (js_mul sy (devicePixelRatio env2)))]"
      and r2: "renderer s2 = Some r2"
    by metis
  let ?x2 = "js_mul sx (devicePixelRatio env2)" and ?y2 = "js_mul sy (devicePixelRatio env2)"
  have p1: "pending_scales (timers s1) = [(next_timer s, x1, y1)]"
    by (simp add: t1 pending_scales_append pending_scales_after_cancel [OF c])
  have p2: "pending_scales (timers s2) = [(next_timer s1, ?x2, ?y2)]"
    by (simp add: t2 pending_scales_append pending_scales_after_cancel [OF c1])
  have pos: "0 < next_timer s"
    using c by (simp add: coherent_def)
  have "next_timer s \<notin> fst ` set (after_cancel s1)"
    using pos by (auto simp add: after_cancel_def d1)
  then have gone: "map_of (timers s2) (next_timer s) = None"
    by (simp add: t2 n1 map_of_eq_None_iff)
  then have idle: "fire (next_timer s) env3 s2 = s2"
    by (simp add: fire_def)
  note fired = fire_scheduled [OF c1 t2 r2, of env3]
  have o1: "pending_onresizes (timers s1) = pending_onresizes (timers s)"
    by (simp add: t1 pending_onresizes_append pending_onresizes_after_cancel [OF c])
  have o2: "pending_onresizes (timers s2) = pending_onresizes (timers s)"
    by (simp add: t2 pending_onresizes_append pending_onresizes_after_cancel [OF c1] o1)
  have o3: "pending_onresizes (timers (fire (next_timer s1) env3 s2)) =
      pending_onresizes (timers s)"
    by (simp add: fired(5) pending_onresizes_after_cancel [OF c1] o1)
  have sc: "pending_scales (timers s) = [] \<longrightarrow>
      (case scale x y env3 s of Inl e \<Rightarrow> True | Inr s' \<Rightarrow> coherent s')"
    using coherent_scale [OF c] by (auto split: sum.splits)
  have two: "\<exists>x1 y1 x2 y2 r mw mh sx sy r'.
            pending_scales (timers s1) = [(next_timer s, x1, y1)] \<and>
            pending_scales (timers s2) = [(next_timer s1, x2, y2)] \<and>
            next_timer s1 \<noteq> next_timer s \<and>
            map_of (timers s2) (next_timer s) = None \<and>
            fire (next_timer s) env3 s2 = s2 \<and>
            renderer s1 = Some r \<and> max_size s1 env2 = Inr (mw, mh) \<and>
            scale_method_chain s1 mw mh r = (sx, sy, r') \<and>
            x2 = js_mul sx (devicePixelRatio env2) \<and> y2 = js_mul sy (devicePixelRatio env2) \<and>
            pending_scales (timers (fire (next_timer s1) env3 s2)) = [] \<and>
            pending_onresizes (timers s1) = pending_onresizes (timers s) \<and>
            pending_onresizes (timers s2) = pending_onresizes (timers s) \<and>
            pending_onresizes (timers (fire (next_timer s1) env3 s2)) =
              pending_onresizes (timers s) \<and>
            (x2 \<noteq> NaN \<and> y2 \<noteq> NaN \<longrightarrow>
               sys_scale (fire (next_timer s1) env3 s2) = (x2, y2) \<and>
               sent (fire (next_timer s1) env3 s2) = sent s2 @ [UpdateBounds, Repaint]) \<and>
            (x2 = NaN \<or> y2 = NaN \<longrightarrow>
               fire (next_timer s1) env3 s2 = s2\<lparr>timers := after_cancel s1\<rparr>)"
    apply (rule exI [of _ x1], rule exI [of _ y1], rule exI [of _ ?x2], rule exI [of _ ?y2])
    apply (rule exI [of _ r], rule exI [of _ mw], rule exI [of _ mh])
    apply (rule exI [of _ sx], rule exI [of _ sy], rule exI [of _ r2])
    using p1 p2 n1 gone idle r m ch fired(1-4) o1 o2 o3
    apply simp
    done
  from coherent_at_most_one [OF c] coherent_initial coherent_init [OF c]
    coherent_setMaxSize [OF c] coherent_onresize [OF c] coherent_fire [OF c] sc two
    pending_onresizes_setMaxSize [of w h s]
  show ?thesis
    by simp
qed


lemmas eval_defs = onresize_def max_size_def parent_size_def scale_method_chain_def scale_def
  vector2d_set_def defer_fn_def clearTimeout_def updateBounds_def repaint_def notify_def
  setAntiAlias_def setBlendMode_def resize_def js_gt_def js_or_def window_def
  design_800x600_def initial_state_def default_settings_def canvas_800x600_def Let_def
  fl_numeral fl_half fl_four_thirds fl_one fl_zero

lemma resized_once_value:
  "onresize False (window 1200 300) (design_800x600 ''fit'') = Inr resized_once"
  by (simp add: resized_once_def eval_defs)

lemma resized_twice_value:
  "onresize False (window 2400 1200) resized_once = Inr resized_twice"
  by (simp add: resized_once_def resized_twice_def eval_defs)

lemma scaled_directly_value:
  "scale (Num 3) (Num 3) (window 1200 300) resized_once = Inr scaled_directly"
  by (simp add: resized_once_def scaled_directly_def eval_defs)

lemma resized_again_value:
  "onresize False (window 2400 1200) scaled_directly = Inr resized_again"
  by (simp add: resized_once_def scaled_directly_def resized_again_def eval_defs)


lemma coherent_design: "coherent (design_800x600 m)"
  by (simp add: coherent_def design_800x600_def initial_state_def)

theorem last_deferred_scale_wins_witness:
  "coherent (design_800x600 ''fit'') \<and> autoScale (settings (design_800x600 ''fit'')) \<and>
   onresize False (window 1200 300) (design_800x600 ''fit'') = Inr resized_once \<and>
   onresize False (window 2400 1200) resized_once = Inr resized_twice \<and>
   pending_scales (timers resized_once) = [(1, Num (1 / 2), Num (1 / 2))] \<and>
   pending_scales (timers resized_twice) = [(2, Num 2, Num 2)] \<and>
   pending_onresizes (timers resized_twice) = [] \<and>
   fire 1 (window 2400 1200) resized_twice = resized_twice \<and>
   pending_scales (timers (fire 2 (window 2400 1200) resized_twice)) = [] \<and>
   sys_scale (fire 2 (window 2400 1200) resized_twice) = (Num 2, Num 2)"
proof -
  have a: "autoScale (settings (design_800x600 ''fit''))"
    by (simp add: design_800x600_def initial_state_def default_settings_def)
  have n: "next_timer (design_800x600 ''fit'') = 1" "next_timer resized_once = 2"
    by (simp_all add: resized_once_def design_800x600_def initial_state_def)
  have p: "pending_scales (timers resized_once) = [(1, Num (1 / 2), Num (1 / 2))]"
    "pending_scales (timers resized_twice) = [(2, Num 2, Num 2)]"
    "pending_onresizes (timers resized_twice) = []"
    by (simp_all add: resized_once_def resized_twice_def)
  from last_deferred_scale_wins [OF coherent_design a resized_once_value resized_twice_value,
      where ?gw = "Num 800" and ?gh = "Num 600" and ?opts = no_options
        and ?b = "browser software_only (window 1200 300)" and ?w = "Num 0" and ?h = "Num 0"
        and ?force = False and ?env3.0 = "window 2400 1200" and ?token = 1
        and ?x = "Num 1" and ?y = "Num 1"]
  have f: "fire 1 (window 2400 1200) resized_twice = resized_twice"
    "pending_scales (timers (fire 2 (window 2400 1200) resized_twice)) = []"
    "sys_scale (fire 2 (window 2400 1200) resized_twice) = (Num 2, Num 2)"
    by (auto simp add: n p)
  show ?thesis
    using coherent_design a resized_once_value resized_twice_value p f by simp
qed

text \<open>
  Claim C3 as the spec words it does not hold of the code. The application calls
  \<^verbatim>\<open>me.video.scale(3, 3)\<close> itself while the scale deferred by a resize in a window of 1200
  by 300 is pending: the call resets \<^verbatim>\<open>deferResizeId\<close> to \<open>-1\<close> and leaves the timer. The
  next resize, in a window of 2400 by 1200, then finds nothing to cancel, and two deferred
  applications of a scale are pending; the superseded one fires and applies the factor 1/2,
  and the later one then applies 2. The deferred calls of \<^verbatim>\<open>onresize\<close> that
  \<^verbatim>\<open>setMaxSize\<close> schedules are not tracked at all: two calls leave two of them pending.
\<close>

theorem direct_scale_counterexample:
  "onresize False (window 1200 300) (design_800x600 ''fit'') = Inr resized_once \<and>
   scale (Num 3) (Num 3) (window 1200 300) resized_once = Inr scaled_directly \<and>
   deferResizeId scaled_directly = - 1 \<and>
   pending_scales (timers scaled_directly) = [(1, Num (1 / 2), Num (1 / 2))] \<and>
   \<not> coherent scaled_directly \<and>
   onresize False (window 2400 1200) scaled_directly = Inr resized_again \<and>
   pending_scales (timers resized_again) =
     [(1, Num (1 / 2), Num (1 / 2)), (2, Num 2, Num 2)] \<and>
   \<not> length (pending_scales (timers resized_again)) \<le> 1 \<and>
   sys_scale (fire 1 (window 2400 1200) resized_again) = (Num (1 / 2), Num (1 / 2)) \<and>
   pending_scales (timers (fire 1 (window 2400 1200) resized_again)) = [(2, Num 2, Num 2)] \<and>
   sys_scale (fire 2 (window 2400 1200) (fire 1 (window 2400 1200) resized_again)) =
     (Num 2, Num 2) \<and>
   pending_onresizes
     (timers (setMaxSize (Num 0) (Num 0) (setMaxSize (Num 0) (Num 0) (design_800x600 ''fit'')))) =
     [1, 2]"
  apply (intro conjI)
             apply (rule resized_once_value)
            apply (rule scaled_directly_value)
           apply (simp add: scaled_directly_def)
          apply (simp add: scaled_directly_def resized_once_def)
         apply (simp add: coherent_def tracked_def scaled_directly_def resized_once_def)
        apply (rule resized_again_value)
       apply (simp add: resized_again_def)
      apply (simp add: resized_again_def)
     apply (simp add: fire_def run_callback_def resized_again_def scaled_directly_def
      resized_once_def eval_defs)
    apply (simp add: fire_def run_callback_def resized_again_def scaled_directly_def
      resized_once_def eval_defs)
   apply (simp add: fire_def run_callback_def resized_again_def scaled_directly_def
      resized_once_def eval_defs)
  apply (simp add: setMaxSize_def eval_defs)
  done

end
